theory Spec2Isabelle
  imports Complex_Main
begin

section \<open>Premium graphics: bubble, limit line, accounts row, list box\<close>

text \<open>
  A shallow embedding of \<^verbatim>\<open>ui/effects/premium_graphics.cpp\<close>. Widgets are records that
  are passed in and returned updated; painting returns the list of painter calls it
  makes; a failed assertion and an integer division by zero are error values.
\<close>

subsection \<open>Numbers\<close>

text \<open>
  \<^verbatim>\<open>float64\<close> is the IEEE double. Its values are the finite ones (taken here as reals,
  the two zeros as one), the two infinities and NaN. \<^verbatim>\<open>operator<\<close> is false as soon as one
  side is NaN.
\<close>

datatype float64 = NaN | NegInf | Finite real | PosInf

fun float_less :: "float64 \<Rightarrow> float64 \<Rightarrow> bool" where
  "float_less NaN b = False"
| "float_less a NaN = False"
| "float_less NegInf NegInf = False"
| "float_less NegInf b = True"
| "float_less (Finite x) NegInf = False"
| "float_less (Finite x) (Finite y) = (x < y)"
| "float_less (Finite x) PosInf = True"
| "float_less PosInf b = False"

text \<open>
  \<^verbatim>\<open>std::clamp(v, lo, hi)\<close> is a template over the value type and uses only its
  \<^verbatim>\<open>operator<\<close>: it returns \<^verbatim>\<open>(v < lo) ? lo : (hi < v) ? hi : v\<close>.
\<close>

definition std_clamp :: "('a \<Rightarrow> 'a \<Rightarrow> bool) \<Rightarrow> 'a \<Rightarrow> 'a \<Rightarrow> 'a \<Rightarrow> 'a" where
  "std_clamp lt v lo hi = (if lt v lo then lo else if lt hi v then hi else v)"

text \<open>The closed unit interval of \<^verbatim>\<open>float64\<close>: a finite value between 0 and 1.\<close>

fun in_unit_range :: "float64 \<Rightarrow> bool" where
  "in_unit_range (Finite x) = (0 \<le> x \<and> x \<le> 1)"
| "in_unit_range e = False"

text \<open>
  The mathematical clamp to the unit interval, on the extended real line: what
  ``clamp(e, 0, 1)'' denotes for a number \<open>e\<close>. It is defined on the values that are
  numbers; NaN is not one.
\<close>

fun clamp_unit_spec :: "float64 \<Rightarrow> float64" where
  "clamp_unit_spec NegInf = Finite 0"
| "clamp_unit_spec PosInf = Finite 1"
| "clamp_unit_spec (Finite x) = Finite (max 0 (min x 1))"
| "clamp_unit_spec NaN = NaN"

text \<open>
  C++ division of \<^verbatim>\<open>int\<close>s truncates towards zero. Pixel sizes are far from the limits
  of \<^verbatim>\<open>int\<close>, so they are integers without a width here.
\<close>

definition tdiv :: "int \<Rightarrow> int \<Rightarrow> int" where
  "tdiv a b = (if (a < 0) = (b < 0) then \<bar>a\<bar> div \<bar>b\<bar> else - (\<bar>a\<bar> div \<bar>b\<bar>))"

text \<open>
  The conversion \<^verbatim>\<open>int(x)\<close> of a finite \<^verbatim>\<open>float64\<close> drops the fraction (towards zero).
\<close>

definition int_of_float :: "real \<Rightarrow> int" where
  "int_of_float x = (if 0 \<le> x then \<lfloor>x\<rfloor> else \<lceil>x\<rceil>)"

subsection \<open>Geometry, brushes and painter calls\<close>

record qsize =
  s_width :: int
  s_height :: int

text \<open>\<^verbatim>\<open>QSize::isEmpty\<close>: either side is zero or less.\<close>

definition isEmpty :: "qsize \<Rightarrow> bool" where
  "isEmpty s = (s_width s \<le> 0 \<or> s_height s \<le> 0)"

record qrect =
  r_x :: int
  r_y :: int
  r_width :: int
  r_height :: int

text \<open>\<^verbatim>\<open>QRect - QMargins(left, top, right, bottom)\<close>.\<close>

definition marginsRemoved :: "qrect \<Rightarrow> int \<Rightarrow> int \<Rightarrow> int \<Rightarrow> int \<Rightarrow> qrect" where
  "marginsRemoved r l t rt b =
     \<lparr>r_x = r_x r + l, r_y = r_y r + t,
      r_width = r_width r - l - rt, r_height = r_height r - t - b\<rparr>"

text \<open>
  \<^verbatim>\<open>ComputeGradient(content, left, width)\<close> picks two colours of the full-width button
  gradient: the ones at \<^verbatim>\<open>left / fullFinal\<close> and at \<^verbatim>\<open>(left + width) / fullFinal\<close>, after
  \<^verbatim>\<open>left\<close> was shifted by half of what the parent is wider than the content. The result
  is kept as these positions and the span.
\<close>

record gradient =
  g_full :: int
  g_from :: int
  g_to :: int
  g_span :: int

definition ComputeGradient :: "int \<Rightarrow> int \<Rightarrow> int \<Rightarrow> int \<Rightarrow> gradient" where
  "ComputeGradient parentWidth contentWidth left width =
     (let fullGradientWidth = parentWidth;
          left' = left + tdiv (fullGradientWidth - contentWidth) 2
      in \<lparr>g_full = fullGradientWidth, g_from = left', g_to = left' + width, g_span = width\<rparr>)"

text \<open>
  A brush is no brush, a style colour (by name), the gradient of \<^verbatim>\<open>ComputeGradient\<close>, or
  the gradient \<^verbatim>\<open>ShowListBox\<close> gives a line: the colours at the ratios
  \<^verbatim>\<open>pointTop / (to - from)\<close> and \<^verbatim>\<open>pointBottom / (to - from)\<close> of the full-height gradient
  (set as the stops 0 and 0.1), over the line's height. \<open>HeightBrush\<close> keeps the two
  numerators, the denominator and the height.
\<close>

datatype brush =
    NoBrush
  | StyleBrush string
  | GradientBrush gradient
  | HeightBrush int int int int

text \<open>
  A path as \<^verbatim>\<open>Line::recache\<close> builds it: a rounded rectangle plus a plain one.
\<close>

record path =
  round_rect :: qrect
  round_radius :: int
  plain_rect :: qrect

text \<open>
  A \<^verbatim>\<open>QPixmap\<close>: its size in device pixels, its device pixel ratio, and the one
  \<^verbatim>\<open>fillPath\<close> painted on the transparent ground (if any). A pixmap made with a side of
  zero or less is the null pixmap, of size zero, and cannot be painted on.
\<close>

record pixmap =
  p_width :: int
  p_height :: int
  p_ratio :: int
  p_fill :: "(path \<times> brush) option"

definition null_pixmap :: pixmap where
  "null_pixmap = \<lparr>p_width = 0, p_height = 0, p_ratio = 1, p_fill = None\<rparr>"

definition QPixmap :: "int \<Rightarrow> int \<Rightarrow> pixmap" where
  "QPixmap w h =
     (if w \<le> 0 \<or> h \<le> 0 then null_pixmap
      else \<lparr>p_width = w, p_height = h, p_ratio = 1, p_fill = None\<rparr>)"

definition isNull :: "pixmap \<Rightarrow> bool" where
  "isNull pm = (p_width pm = 0 \<and> p_height pm = 0)"

definition setDevicePixelRatio :: "int \<Rightarrow> pixmap \<Rightarrow> pixmap" where
  "setDevicePixelRatio ratio pm = (if isNull pm then pm else pm\<lparr>p_ratio := ratio\<rparr>)"

definition fillPath :: "path \<Rightarrow> brush \<Rightarrow> pixmap \<Rightarrow> pixmap" where
  "fillPath pa br pm = (if isNull pm then pm else pm\<lparr>p_fill := Some (pa, br)\<rparr>)"

text \<open>
  The painter calls that draw. Setting a pen, a brush or a font draws nothing and is
  left out; the brush a path is filled with is part of the call. A text call keeps the
  text, its horizontal offset, its top, the width it may take and the outer width.
\<close>

datatype paint_op =
    Translate int int
  | Scale real
  | Rotate real
  | DrawPath brush bool float64 qrect int
  | PaintIcon int int int
  | PaintNumbers int int int
  | DrawPixmap int int pixmap
  | DrawRight string int int int int
  | DrawLeft string int int int int
  | DrawLeftElided string int int int int

subsection \<open>Style constants\<close>

text \<open>
  The \<^verbatim>\<open>st::\<close> constants are generated from style files that are not part of this
  file; the device pixel ratio is the screen's; the width and height of a rendered text
  come from the font. All of them are parameters.
\<close>

record style =
  premiumBubbleHeight :: int
  premiumBubbleTailSize :: qsize
  premiumBubblePadding_left :: int
  premiumBubblePadding_right :: int
  premiumBubbleTextSkip :: int
  premiumBubblePenWidth :: int
  premiumBubbleSkip :: int
  premiumBubbleWidthLimit :: int
  premiumBubbleSlideDuration :: real
  premiumBubbleFont_height :: int
  icon_width :: int
  icon_height :: int
  countWidth :: "int \<Rightarrow> int"
  requestsAcceptButton_height :: int
  buttonRadius :: int
  devicePixelRatio :: int
  premiumLineTextSkip :: int
  textMinHeight :: int
  textCountWidth :: "string \<Rightarrow> int \<Rightarrow> int"

definition kBubbleRadiusSubtractor :: int where
  "kBubbleRadiusSubtractor = 2"

definition kDeflectionSmall :: real where
  "kDeflectionSmall = 20"

definition kDeflection :: real where
  "kDeflection = 30"

definition kStepBeforeDeflection :: real where
  "kStepBeforeDeflection = 0.75"

definition kStepAfterDeflection :: real where
  "kStepAfterDeflection = kStepBeforeDeflection + (1 - kStepBeforeDeflection) / 2"

subsection \<open>Bubble\<close>

text \<open>
  The fields of \<^verbatim>\<open>Bubble\<close> that change: \<^verbatim>\<open>_counter\<close>, \<^verbatim>\<open>_tailEdge\<close> and the number
  last given to \<^verbatim>\<open>_numberAnimation.setText\<close>; and \<^verbatim>\<open>_premiumPossible\<close>.
\<close>

record bubble =
  counter :: int
  tailEdge :: float64
  numberShown :: int
  premiumPossible :: bool

text \<open>
  The constructor: the member initialisers \<^verbatim>\<open>_counter = -1\<close>, \<^verbatim>\<open>_tailEdge = 0.\<close>, and
  \<^verbatim>\<open>_numberAnimation.setText(_textFactory(0), 0)\<close>.
\<close>

definition Bubble :: "bool \<Rightarrow> bubble" where
  "Bubble possible =
     \<lparr>counter = - 1, tailEdge = Finite 0, numberShown = 0, premiumPossible = possible\<rparr>"

definition setCounter :: "int \<Rightarrow> bubble \<Rightarrow> bubble" where
  "setCounter v b =
     (if counter b \<noteq> v then b\<lparr>counter := v, numberShown := v\<rparr> else b)"

definition setTailEdge :: "float64 \<Rightarrow> bubble \<Rightarrow> bubble" where
  "setTailEdge edge b = b\<lparr>tailEdge := std_clamp float_less edge (Finite 0) (Finite 1)\<rparr>"

definition bubble_height :: "style \<Rightarrow> int" where
  "bubble_height st = premiumBubbleHeight st + s_height (premiumBubbleTailSize st)"

definition textTop :: "style \<Rightarrow> int" where
  "textTop st =
     tdiv (bubble_height st - s_height (premiumBubbleTailSize st) - premiumBubbleFont_height st) 2"

definition bubbleRadius :: "style \<Rightarrow> int" where
  "bubbleRadius st =
     tdiv (bubble_height st - s_height (premiumBubbleTailSize st)) 2 - kBubbleRadiusSubtractor"

definition filledWidth :: "style \<Rightarrow> int" where
  "filledWidth st =
     premiumBubblePadding_left st + icon_width st + premiumBubbleTextSkip st
       + premiumBubblePadding_right st"

definition bubble_width :: "style \<Rightarrow> bubble \<Rightarrow> int" where
  "bubble_width st b = filledWidth st + countWidth st (numberShown b)"

text \<open>
  \<^verbatim>\<open>Bubble::paintBubble\<close>: nothing for a negative counter; otherwise the path of the tail
  and the rounded rectangle (determined by \<^verbatim>\<open>_premiumPossible\<close>, the tail edge, the bubble
  rectangle and the radius), the icon and the number.
\<close>

definition paintBubble :: "style \<Rightarrow> bubble \<Rightarrow> qrect \<Rightarrow> brush \<Rightarrow> paint_op list" where
  "paintBubble st b r br =
     (if counter b < 0 then []
      else
        let penWidthHalf = tdiv (premiumBubblePenWidth st) 2;
            bubbleRect = marginsRemoved r penWidthHalf penWidthHalf penWidthHalf
              (s_height (premiumBubbleTailSize st) + penWidthHalf);
            iconLeft = r_x r + premiumBubblePadding_left st
        in [DrawPath br (premiumPossible b) (tailEdge b) bubbleRect (bubbleRadius st),
            PaintIcon iconLeft
              (r_y bubbleRect + tdiv (r_height bubbleRect - icon_height st) 2)
              (r_width bubbleRect),
            PaintNumbers (iconLeft + icon_width st + premiumBubbleTextSkip st)
              (r_y r + textTop st) (tdiv (bubble_width st b) 2)])"

text \<open>The operations of a \<^verbatim>\<open>Bubble\<close> that write its state, and a run of them.\<close>

datatype bubble_op = SetCounter int | SetTailEdge float64

fun bubble_do :: "bubble_op \<Rightarrow> bubble \<Rightarrow> bubble" where
  "bubble_do (SetCounter v) b = setCounter v b"
| "bubble_do (SetTailEdge e) b = setTailEdge e b"

fun bubble_run :: "bubble_op list \<Rightarrow> bubble \<Rightarrow> bubble" where
  "bubble_run [] b = b"
| "bubble_run (x # xs) b = bubble_run xs (bubble_do x b)"

fun passes_nan :: "bubble_op \<Rightarrow> bool" where
  "passes_nan (SetTailEdge e) = (e = NaN)"
| "passes_nan (SetCounter v) = False"

subsection \<open>Finite float64 arithmetic\<close>

text \<open>
  An arithmetic operation on finite \<^verbatim>\<open>float64\<close> values yields the exact result rounded
  to a representable value. The rounding \<open>rnd\<close> is a parameter; all that is used of it
  is that it is monotone and leaves the integers of magnitude up to \<open>2^53\<close> as they are,
  which holds of every IEEE rounding mode (and of exact arithmetic, \<open>rnd = id\<close>).
\<close>

definition is_rounding :: "(real \<Rightarrow> real) \<Rightarrow> bool" where
  "is_rounding rnd =
     (mono rnd \<and> (\<forall>k::int. \<bar>k\<bar> \<le> 2 ^ 53 \<longrightarrow> rnd (real_of_int k) = real_of_int k))"

definition fdiv :: "(real \<Rightarrow> real) \<Rightarrow> real \<Rightarrow> real \<Rightarrow> real" where
  "fdiv rnd x y = rnd (x / y)"

definition fmul :: "(real \<Rightarrow> real) \<Rightarrow> real \<Rightarrow> real \<Rightarrow> real" where
  "fmul rnd x y = rnd (x * y)"

definition fsub :: "(real \<Rightarrow> real) \<Rightarrow> real \<Rightarrow> real \<Rightarrow> real" where
  "fsub rnd x y = rnd (x - y)"

text \<open>
  The product of a finite value with any \<^verbatim>\<open>float64\<close>: zero times an infinity is NaN, and
  NaN stays NaN.
\<close>

fun fmul_any :: "(real \<Rightarrow> real) \<Rightarrow> real \<Rightarrow> float64 \<Rightarrow> float64" where
  "fmul_any rnd v (Finite x) = Finite (fmul rnd v x)"
| "fmul_any rnd v NaN = NaN"
| "fmul_any rnd v PosInf = (if 0 < v then PosInf else if v < 0 then NegInf else NaN)"
| "fmul_any rnd v NegInf = (if 0 < v then NegInf else if v < 0 then PosInf else NaN)"

subsection \<open>BubbleWidget\<close>

text \<open>
  A running \<^verbatim>\<open>Ui::Animations::Simple\<close>: the arguments of \<^verbatim>\<open>start\<close> (from, to, duration),
  the \<^verbatim>\<open>bubbleEdge\<close> its callback captured, and the value it delivered last.
\<close>

record animation =
  a_from :: real
  a_to :: real
  a_duration :: real
  a_bubbleEdge :: float64
  a_current :: real

text \<open>
  The members of \<^verbatim>\<open>BubbleWidget\<close>, the widget's size, and three counters of what it
  did: how many events the \<^verbatim>\<open>rpl::take(1)\<close> on \<^verbatim>\<open>showFinishes\<close> still lets through, how
  often \<^verbatim>\<open>_appearanceAnimation.start\<close> was called, and how often \<^verbatim>\<open>update()\<close>. The
  widget's position (\<^verbatim>\<open>moveToLeft\<close>) is not part of the state.
\<close>

record bubble_widget =
  currentCounter :: int
  maxCounter :: int
  w_bubble :: bubble
  maxBubbleWidth :: int
  w_premiumPossible :: bool
  appearanceAnimation :: "animation option"
  spaceForDeflection :: qsize
  cachedGradient :: "gradient option"
  deflection :: real
  ignoreDeflection :: bool
  stepBeforeDeflection :: real
  stepAfterDeflection :: real
  w_size :: qsize
  showFinishes_left :: nat
  animation_starts :: nat
  updates :: nat

text \<open>The lambda \<^verbatim>\<open>resizeTo\<close> of the constructor.\<close>

definition resizeTo :: "style \<Rightarrow> int \<Rightarrow> int \<Rightarrow> bubble_widget \<Rightarrow> bubble_widget" where
  "resizeTo st w h bw =
     bw\<lparr>deflection := (if w > premiumBubbleWidthLimit st then kDeflectionSmall else kDeflection),
        spaceForDeflection := \<lparr>s_width = premiumBubbleSkip st, s_height = premiumBubbleSkip st\<rparr>,
        w_size := \<lparr>s_width = w + premiumBubbleSkip st, s_height = h + premiumBubbleSkip st\<rparr>\<rparr>"

text \<open>
  The constructor. \<^verbatim>\<open>Bubble::countMaxWidth(maxCounter)\<close> is \<^verbatim>\<open>filledWidth()\<close> plus the
  widest the number animation gets on its way to \<^verbatim>\<open>maxCounter\<close>, a measure of the font
  (the parameter \<open>numbersMaxWidth\<close>).
\<close>

definition BubbleWidget :: "style \<Rightarrow> (int \<Rightarrow> int) \<Rightarrow> int \<Rightarrow> int \<Rightarrow> bool \<Rightarrow> bubble_widget" where
  "BubbleWidget st numbersMaxWidth current maxC possible =
     resizeTo st (bubble_width st (Bubble possible)) (bubble_height st)
       \<lparr>currentCounter = current,
        maxCounter = maxC,
        w_bubble = Bubble possible,
        maxBubbleWidth = filledWidth st + numbersMaxWidth maxC,
        w_premiumPossible = possible,
        appearanceAnimation = None,
        spaceForDeflection = \<lparr>s_width = - 1, s_height = - 1\<rparr>,
        cachedGradient = None,
        deflection = kDeflection,
        ignoreDeflection = False,
        stepBeforeDeflection = kStepBeforeDeflection,
        stepAfterDeflection = kStepAfterDeflection,
        w_size = \<lparr>s_width = 0, s_height = 0\<rparr>,
        showFinishes_left = 1,
        animation_starts = 0,
        updates = 0\<rparr>"

text \<open>
  The body of the \<^verbatim>\<open>showFinishes\<close> handler. \<open>bubbleEdge\<close> is the value of
  \<^verbatim>\<open>checkBubbleEdges()\<close>, computed from the parent's width and the paddings at that moment.
  \<^verbatim>\<open>_ignoreDeflection = bubbleEdge\<close> converts it to \<^verbatim>\<open>bool\<close>: anything but zero is true.
\<close>

definition start_appearance :: "style \<Rightarrow> float64 \<Rightarrow> bubble_widget \<Rightarrow> bubble_widget" where
  "start_appearance st bubbleEdge bw =
     (let ignore = (bubbleEdge \<noteq> Finite 0);
          bw1 = bw\<lparr>ignoreDeflection := ignore\<rparr>;
          bw2 = (if ignore
                 then bw1\<lparr>stepBeforeDeflection := 1, stepAfterDeflection := 1\<rparr>
                 else bw1)
      in bw2\<lparr>appearanceAnimation :=
                Some \<lparr>a_from = 0, a_to = 1,
                      a_duration = premiumBubbleSlideDuration st
                        * (if ignore then kStepBeforeDeflection else 1),
                      a_bubbleEdge = bubbleEdge, a_current = 0\<rparr>,
             animation_starts := animation_starts bw2 + 1\<rparr>)"

text \<open>
  \<^verbatim>\<open>showFinishes | rpl::take(1) | rpl::start_with_next(...)\<close>: \<^verbatim>\<open>take(1)\<close> hands the first
  event on to the handler and ends the subscription.
\<close>

definition on_showFinishes :: "style \<Rightarrow> float64 \<Rightarrow> bubble_widget \<Rightarrow> bubble_widget" where
  "on_showFinishes st bubbleEdge bw =
     (if showFinishes_left bw = 0 then bw
      else start_appearance st bubbleEdge (bw\<lparr>showFinishes_left := showFinishes_left bw - 1\<rparr>))"

text \<open>
  The counter the animation callback computes for the value \<open>v\<close>:
  \<^verbatim>\<open>int(0 + counterProgress * _currentCounter)\<close>. Adding the \<^verbatim>\<open>int\<close> zero to a
  \<^verbatim>\<open>float64\<close> gives that \<^verbatim>\<open>float64\<close>.
\<close>

definition counterProgress :: "(real \<Rightarrow> real) \<Rightarrow> real \<Rightarrow> real \<Rightarrow> real" where
  "counterProgress rnd stepAfter v = std_clamp (<) (fdiv rnd v stepAfter) 0 1"

definition tick_counter :: "(real \<Rightarrow> real) \<Rightarrow> real \<Rightarrow> int \<Rightarrow> real \<Rightarrow> int" where
  "tick_counter rnd stepAfter current v =
     int_of_float (fmul rnd (counterProgress rnd stepAfter v) (real_of_int current))"

text \<open>
  The callback given to \<^verbatim>\<open>_appearanceAnimation.start\<close>, called with the animation's value.
\<close>

definition appearance_callback ::
  "(real \<Rightarrow> real) \<Rightarrow> float64 \<Rightarrow> real \<Rightarrow> bubble_widget \<Rightarrow> bubble_widget" where
  "appearance_callback rnd bubbleEdge v bw =
     (let c = tick_counter rnd (stepAfterDeflection bw) (currentCounter bw) v;
          edgeProgress = fmul_any rnd v bubbleEdge
      in bw\<lparr>w_bubble := setTailEdge edgeProgress (setCounter c (w_bubble bw)),
            updates := updates bw + 1\<rparr>)"

text \<open>
  A step of the running animation delivers a value to the callback; the last step
  delivers \<^verbatim>\<open>to\<close> and the animation stops. Without a running animation there is no
  callback.
\<close>

definition on_tick :: "(real \<Rightarrow> real) \<Rightarrow> real \<Rightarrow> bubble_widget \<Rightarrow> bubble_widget" where
  "on_tick rnd v bw =
     (case appearanceAnimation bw of
        None \<Rightarrow> bw
      | Some a \<Rightarrow>
          appearance_callback rnd (a_bubbleEdge a) v
            (bw\<lparr>appearanceAnimation := Some (a\<lparr>a_current := v\<rparr>)\<rparr>))"

definition on_finish :: "(real \<Rightarrow> real) \<Rightarrow> bubble_widget \<Rightarrow> bubble_widget" where
  "on_finish rnd bw =
     (case appearanceAnimation bw of
        None \<Rightarrow> bw
      | Some a \<Rightarrow>
          appearance_callback rnd (a_bubbleEdge a) (a_to a)
            (bw\<lparr>appearanceAnimation := None\<rparr>))"

text \<open>
  \<^verbatim>\<open>BubbleWidget::paintEvent\<close>. It returns before a painter exists while the counter is
  zero or less. \<open>boxWidth\<close> and \<open>parentWidth\<close> are the widths \<^verbatim>\<open>ComputeGradient\<close> reads
  (of the parent's parent and of the parent), \<open>x\<close> is the widget's \<^verbatim>\<open>x()\<close>. The two
  rotation progresses are only used without \<^verbatim>\<open>_ignoreDeflection\<close>. Before the first
  paint of a running animation \<^verbatim>\<open>_cachedGradient\<close> is the default-constructed gradient.
\<close>

definition paintEvent ::
  "(real \<Rightarrow> real) \<Rightarrow> style \<Rightarrow> int \<Rightarrow> int \<Rightarrow> int \<Rightarrow> bubble_widget
     \<Rightarrow> bubble_widget \<times> paint_op list" where
  "paintEvent rnd st boxWidth parentWidth x bw =
     (if counter (w_bubble bw) \<le> 0 then (bw, [])
      else
        let bubbleRect = marginsRemoved
              \<lparr>r_x = 0, r_y = 0, r_width = s_width (w_size bw), r_height = s_height (w_size bw)\<rparr>
              0 (s_height (spaceForDeflection bw)) (s_width (spaceForDeflection bw)) 0;
            (bw', transform) =
              (case appearanceAnimation bw of
                 None \<Rightarrow> (bw, [])
               | Some a \<Rightarrow>
                   let progress = a_current a;
                       sb = stepBeforeDeflection bw;
                       sa = stepAfterDeflection bw;
                       scale = std_clamp (<) (fdiv rnd progress sb) 0 1;
                       offsetX = r_x bubbleRect + tdiv (r_width bubbleRect) 2;
                       offsetY = r_y bubbleRect + r_height bubbleRect
                   in (bw\<lparr>cachedGradient :=
                             Some (ComputeGradient boxWidth parentWidth x (r_width bubbleRect))\<rparr>,
                       [Translate offsetX offsetY, Scale scale]
                       @ (if \<not> ignoreDeflection bw
                          then [Rotate (fsub rnd
                                  (fmul rnd
                                    (std_clamp (<)
                                      (fdiv rnd (fsub rnd progress sb) (fsub rnd 1 sb)) 0 1)
                                    (deflection bw))
                                  (fmul rnd
                                    (std_clamp (<)
                                      (fdiv rnd (fsub rnd progress sa) (fsub rnd 1 sa)) 0 1)
                                    (deflection bw)))]
                          else [])
                       @ [Translate (- offsetX) (- offsetY)]))
        in (bw',
            transform
            @ paintBubble st (w_bubble bw') bubbleRect
                (if w_premiumPossible bw'
                 then (case cachedGradient bw' of
                         None \<Rightarrow> StyleBrush ''QLinearGradient()''
                       | Some g \<Rightarrow> GradientBrush g)
                 else StyleBrush ''windowBgActive'')))"


text \<open>What happens to a \<^verbatim>\<open>BubbleWidget\<close>, and a run of such events with what each painted.\<close>

datatype widget_event =
    ShowFinishes float64
  | Tick real
  | Finish
  | WidthChanged
  | Paint int int int

fun widget_do ::
  "(real \<Rightarrow> real) \<Rightarrow> style \<Rightarrow> widget_event \<Rightarrow> bubble_widget \<Rightarrow> bubble_widget \<times> paint_op list" where
  "widget_do rnd st (ShowFinishes e) bw = (on_showFinishes st e bw, [])"
| "widget_do rnd st (Tick v) bw = (on_tick rnd v bw, [])"
| "widget_do rnd st Finish bw = (on_finish rnd bw, [])"
| "widget_do rnd st WidthChanged bw =
     (resizeTo st (bubble_width st (w_bubble bw)) (bubble_height st) bw, [])"
| "widget_do rnd st (Paint boxWidth parentWidth x) bw = paintEvent rnd st boxWidth parentWidth x bw"

fun widget_run ::
  "(real \<Rightarrow> real) \<Rightarrow> style \<Rightarrow> widget_event list \<Rightarrow> bubble_widget \<Rightarrow> bubble_widget" where
  "widget_run rnd st [] bw = bw"
| "widget_run rnd st (e # es) bw = widget_run rnd st es (fst (widget_do rnd st e bw))"

text \<open>For each event of a run: the counter the event found, and what the event painted.\<close>

fun widget_trace ::
  "(real \<Rightarrow> real) \<Rightarrow> style \<Rightarrow> widget_event list \<Rightarrow> bubble_widget \<Rightarrow> (int \<times> paint_op list) list" where
  "widget_trace rnd st [] bw = []"
| "widget_trace rnd st (e # es) bw =
     (counter (w_bubble bw), snd (widget_do rnd st e bw))
       # widget_trace rnd st es (fst (widget_do rnd st e bw))"

fun is_showFinishes :: "widget_event \<Rightarrow> bool" where
  "is_showFinishes (ShowFinishes e) = True"
| "is_showFinishes e = False"

subsection \<open>Line\<close>

text \<open>
  The members of \<^verbatim>\<open>Line\<close>, the widget's size and the number of \<^verbatim>\<open>update()\<close> calls.
  \<^verbatim>\<open>_leftText\<close> and \<^verbatim>\<open>_rightText\<close> are the two fixed phrases.
\<close>

record line =
  leftWidth :: int
  rightWidth :: int
  leftPixmap :: pixmap
  rightPixmap :: pixmap
  rightLabel :: string
  leftLabel :: string
  overrideBrush :: "brush option"
  l_size :: qsize
  l_updates :: nat

text \<open>\<^verbatim>\<open>QRect::center().x()\<close>, \<^verbatim>\<open>setLeft\<close> and \<^verbatim>\<open>setRight\<close> (the other edge stays).\<close>

definition center_x :: "qrect \<Rightarrow> int" where
  "center_x r = tdiv (r_x r + (r_x r + r_width r - 1)) 2"

definition setLeft :: "int \<Rightarrow> qrect \<Rightarrow> qrect" where
  "setLeft c r = r\<lparr>r_x := c, r_width := r_x r + r_width r - c\<rparr>"

definition setRight :: "int \<Rightarrow> qrect \<Rightarrow> qrect" where
  "setRight c r = r\<lparr>r_width := c - r_x r + 1\<rparr>"

text \<open>
  \<^verbatim>\<open>Line::recache\<close>. Both pixmaps are copies of one pixmap of the size of
  \<^verbatim>\<open>r = QRect(0, 0, _leftWidth, s.height())\<close>. \<open>parentWidth\<close> is the width of the line's
  parent, which \<^verbatim>\<open>ComputeGradient(this, ...)\<close> reads.
\<close>

definition recache :: "style \<Rightarrow> int \<Rightarrow> qsize \<Rightarrow> line \<Rightarrow> line" where
  "recache st parentWidth s l =
     (let r = \<lparr>r_x = 0, r_y = 0, r_width = leftWidth l, r_height = s_height s\<rparr>;
          pm = setDevicePixelRatio (devicePixelRatio st)
                 (QPixmap (r_width r * devicePixelRatio st) (r_height r * devicePixelRatio st));
          lp = fillPath
                 \<lparr>round_rect = r, round_radius = buttonRadius st,
                  plain_rect = setLeft (center_x r) r\<rparr>
                 (StyleBrush ''windowShadowFgFallback'') pm;
          l1 = l\<lparr>leftPixmap := lp\<rparr>;
          rpath = \<lparr>round_rect = r, round_radius = buttonRadius st,
                   plain_rect = setRight (center_x r) r\<rparr>;
          rp = (case overrideBrush l1 of
                  Some br \<Rightarrow> fillPath rpath br pm
                | None \<Rightarrow>
                    fillPath rpath
                      (GradientBrush
                         (ComputeGradient parentWidth (s_width (l_size l1))
                            (tdiv (p_width (leftPixmap l1)) (devicePixelRatio st) + r_x r)
                            (r_width r)))
                      pm)
      in l1\<lparr>rightPixmap := rp\<rparr>)"

text \<open>
  The handler of \<^verbatim>\<open>sizeValue()\<close> in the constructor, after the widget took the size \<open>s\<close>.
\<close>

definition line_resized :: "style \<Rightarrow> int \<Rightarrow> qsize \<Rightarrow> line \<Rightarrow> line" where
  "line_resized st parentWidth s l0 =
     (let l = l0\<lparr>l_size := s\<rparr>
      in if isEmpty s then l
         else
           let l1 = l\<lparr>leftWidth := tdiv (s_width s) 2\<rparr>;
               l2 = l1\<lparr>rightWidth := s_width s - leftWidth l1\<rparr>;
               l3 = recache st parentWidth s l2
           in l3\<lparr>l_updates := l_updates l3 + 1\<rparr>)"

text \<open>
  The constructor \<^verbatim>\<open>Line(parent, max, min)\<close> of a widget of width \<open>w\<close>: it takes the
  height of the style and subscribes to \<^verbatim>\<open>sizeValue()\<close>, which delivers the size the
  widget has at once and then every new size.
\<close>

definition Line :: "style \<Rightarrow> int \<Rightarrow> int \<Rightarrow> string \<Rightarrow> string \<Rightarrow> line" where
  "Line st parentWidth w max_text min_text =
     line_resized st parentWidth \<lparr>s_width = w, s_height = requestsAcceptButton_height st\<rparr>
       \<lparr>leftWidth = 0, rightWidth = 0,
        leftPixmap = null_pixmap, rightPixmap = null_pixmap,
        rightLabel = max_text, leftLabel = min_text,
        overrideBrush = None,
        l_size = \<lparr>s_width = w, s_height = requestsAcceptButton_height st\<rparr>,
        l_updates = 0\<rparr>"

text \<open>
  The constructor \<^verbatim>\<open>Line(parent, max, textFactory, min)\<close>: a number that is zero gives the
  empty label.
\<close>

definition Line_numbers ::
  "style \<Rightarrow> int \<Rightarrow> int \<Rightarrow> int \<Rightarrow> (int \<Rightarrow> string) \<Rightarrow> int \<Rightarrow> line" where
  "Line_numbers st parentWidth w max_n textFactory min_n =
     Line st parentWidth w
       (if max_n \<noteq> 0 then textFactory max_n else [])
       (if min_n \<noteq> 0 then textFactory min_n else [])"

definition setColorOverride :: "brush \<Rightarrow> line \<Rightarrow> line" where
  "setColorOverride br l =
     (if br = NoBrush then l\<lparr>overrideBrush := None\<rparr> else l\<lparr>overrideBrush := Some br\<rparr>)"

text \<open>\<^verbatim>\<open>Line::paintEvent\<close>: the two pixmaps, then the four texts.\<close>

definition line_paintEvent :: "style \<Rightarrow> line \<Rightarrow> paint_op list" where
  "line_paintEvent st l =
     (let textPadding = premiumLineTextSkip st;
          top = tdiv (s_height (l_size l) - textMinHeight st) 2
      in [DrawPixmap 0 0 (leftPixmap l),
          DrawPixmap (leftWidth l) 0 (rightPixmap l),
          DrawRight (leftLabel l) textPadding top (leftWidth l - textPadding) (leftWidth l),
          DrawLeft ''lng_premium_free'' textPadding top (leftWidth l - textPadding) (leftWidth l),
          DrawRight (rightLabel l) textPadding top (rightWidth l - textPadding)
            (s_width (l_size l)),
          DrawLeftElided ''lng_premium'' (leftWidth l + textPadding) top
            (rightWidth l - textCountWidth st (rightLabel l) (rightWidth l) - textPadding * 2)
            (rightWidth l)])"

text \<open>
  The columns of the widget a drawn pixmap covers: from where it is drawn, as wide as
  the pixmap is in logical pixels.
\<close>

definition pixmap_columns :: "int \<Rightarrow> pixmap \<Rightarrow> int set" where
  "pixmap_columns x pm = {x ..< x + tdiv (p_width pm) (p_ratio pm)}"

subsection \<open>Failures\<close>

text \<open>
  \<^verbatim>\<open>Assert(...)\<close> on a false condition ends the program, and so does a division of
  unsigned integers by zero.
\<close>

datatype failure = AssertionFailed | DivisionByZero

subsection \<open>AddAccountsRow\<close>

text \<open>
  \<^verbatim>\<open>state->accounts.size()\<close> is a \<^verbatim>\<open>size_t\<close> (64 bits, unsigned), so the arithmetic of the
  size handler that involves it is unsigned: an \<^verbatim>\<open>int\<close> operand is converted first, the
  result wraps at \<open>2^64\<close>, and passing it on as an \<^verbatim>\<open>int\<close> keeps the low 32 bits as a
  signed number.
\<close>

definition to_size_t :: "int \<Rightarrow> int" where
  "to_size_t x = x mod 2 ^ 64"

definition to_int :: "int \<Rightarrow> int" where
  "to_int x = (x + 2 ^ 31) mod 2 ^ 32 - 2 ^ 31"

text \<open>The constants of the row: \<^verbatim>\<open>args.st\<close> and the \<^verbatim>\<open>st::premiumAccounts...\<close> values.\<close>

record accounts_style =
  imageRadius :: int
  selectWidth :: int
  premiumAccountsLabelSize :: qsize
  premiumAccountsLabelPadding_left :: int
  premiumAccountsLabelPadding_top :: int
  premiumAccountsLabelPadding_right :: int
  premiumAccountsLabelPadding_bottom :: int
  accounts_devicePixelRatio :: int

text \<open>
  The badge \<^verbatim>\<open>cacheBadge(center)\<close> paints: a pixmap of the label's size plus its padding,
  with the inner rectangle (as wide as the label) filled with the gradient computed for
  its left edge \<^verbatim>\<open>center - rectIn.width() / 2\<close>. \<open>boxWidth\<close> and \<open>containerWidth\<close> are the
  widths \<^verbatim>\<open>ComputeGradient(container, ...)\<close> reads.
\<close>

record badge =
  b_size :: qsize
  b_ratio :: int
  b_gradient :: gradient

definition cacheBadge :: "accounts_style \<Rightarrow> int \<Rightarrow> int \<Rightarrow> int \<Rightarrow> badge" where
  "cacheBadge ast boxWidth containerWidth center =
     (let sz = \<lparr>s_width = s_width (premiumAccountsLabelSize ast)
                     + (premiumAccountsLabelPadding_left ast
                        + premiumAccountsLabelPadding_right ast),
                   s_height = s_height (premiumAccountsLabelSize ast)
                     + (premiumAccountsLabelPadding_top ast
                        + premiumAccountsLabelPadding_bottom ast)\<rparr>;
          rectIn = marginsRemoved
            \<lparr>r_x = 0, r_y = 0, r_width = s_width sz, r_height = s_height sz\<rparr>
            (premiumAccountsLabelPadding_left ast) (premiumAccountsLabelPadding_top ast)
            (premiumAccountsLabelPadding_right ast) (premiumAccountsLabelPadding_bottom ast);
          left = center - tdiv (r_width rectIn) 2
      in \<lparr>b_size = \<lparr>s_width = s_width sz * accounts_devicePixelRatio ast,
                     s_height = s_height sz * accounts_devicePixelRatio ast\<rparr>,
          b_ratio = accounts_devicePixelRatio ast,
          b_gradient = ComputeGradient boxWidth containerWidth left (r_width rectIn)\<rparr>)"

text \<open>
  An \<^verbatim>\<open>Account\<close>: the geometry of its button (the left offset given to \<^verbatim>\<open>moveToLeft\<close>
  and the size given to \<^verbatim>\<open>resize\<close>; before the first layout the toolkit's default,
  taken as zero), whether its checkbox is checked, the colour override of the checkbox,
  its name and its badge (none before the first layout).
\<close>

record account =
  a_geometry :: qrect
  a_checked :: bool
  a_colorOverride :: "brush option"
  a_name :: string
  a_badge :: "badge option"

text \<open>
  The radio group \<^verbatim>\<open>args.group\<close> belongs to the toolkit. Of its state, the model keeps the
  value and whether one was ever set. \<^verbatim>\<open>setValue\<close> stores the value; whether it then calls
  the changed callback is the toolkit's decision, the parameter \<open>fires\<close> of a click below.
\<close>

record radio_group =
  g_value :: int
  g_hasValue :: bool

record accounts_row =
  accounts :: "account list"
  row_group :: radio_group

text \<open>
  The loop over \<^verbatim>\<open>args.entries\<close>: each entry appends an account whose checkbox is checked
  when its index is the group's value.
\<close>

fun add_entries :: "int \<Rightarrow> string list \<Rightarrow> account list \<Rightarrow> account list" where
  "add_entries gv [] accs = accs"
| "add_entries gv (name # entries) accs =
     add_entries gv entries
       (accs @ [\<lparr>a_geometry = \<lparr>r_x = 0, r_y = 0, r_width = 0, r_height = 0\<rparr>,
                 a_checked = (int (length accs) = gv),
                 a_colorOverride = None,
                 a_name = name,
                 a_badge = None\<rparr>])"

definition AddAccountsRow :: "radio_group \<Rightarrow> string list \<Rightarrow> accounts_row" where
  "AddAccountsRow grp entries =
     \<lparr>accounts = add_entries (g_value grp) entries [], row_group = grp\<rparr>"

text \<open>
  The callback given to \<^verbatim>\<open>group->setChangedCallback\<close>: account \<open>i\<close> is checked when \<open>i\<close> is
  the value.
\<close>

fun set_checked_from :: "nat \<Rightarrow> int \<Rightarrow> account list \<Rightarrow> account list" where
  "set_checked_from i v [] = []"
| "set_checked_from i v (a # accs) =
     a\<lparr>a_checked := (int i = v)\<rparr> # set_checked_from (Suc i) v accs"

definition changedCallback :: "int \<Rightarrow> accounts_row \<Rightarrow> accounts_row" where
  "changedCallback v row = row\<lparr>accounts := set_checked_from 0 v (accounts row)\<rparr>"

text \<open>
  A click on the button of account \<open>index\<close>: its clicked callback is
  \<^verbatim>\<open>group->setValue(index)\<close>. There is a button for every account and no other.
\<close>

definition clicked ::
  "(radio_group \<Rightarrow> int \<Rightarrow> bool) \<Rightarrow> nat \<Rightarrow> accounts_row \<Rightarrow> accounts_row" where
  "clicked fires index row =
     (if index < length (accounts row)
      then
        let v = int index;
            row' = row\<lparr>row_group := \<lparr>g_value = v, g_hasValue = True\<rparr>\<rparr>
        in if fires (row_group row) v then changedCallback v row' else row'
      else row)"

text \<open>
  What the row keeps between events: the checked checkbox is the one at the group's
  value, and no other is.
\<close>

definition row_consistent :: "accounts_row \<Rightarrow> bool" where
  "row_consistent row =
     (\<forall>j < length (accounts row).
        a_checked (accounts row ! j) = (int j = g_value (row_group row)))"

text \<open>
  The body of the loop of the size handler for account \<open>i\<close>, with \<open>columnWidth\<close> a
  \<^verbatim>\<open>size_t\<close>.
\<close>

definition layout_account ::
  "accounts_style \<Rightarrow> int \<Rightarrow> qsize \<Rightarrow> int \<Rightarrow> nat \<Rightarrow> account \<Rightarrow> account" where
  "layout_account ast boxWidth sz columnWidth i a =
     (let left = (columnWidth * to_size_t (int i)) mod 2 ^ 64;
          photoWidth = (imageRadius ast + selectWidth ast) * 2
      in a\<lparr>a_geometry := \<lparr>r_x = to_int left, r_y = 0,
                            r_width = to_int columnWidth, r_height = s_height sz\<rparr>,
           a_badge := Some (cacheBadge ast boxWidth (s_width sz)
                              (to_int ((left + columnWidth div 2) mod 2 ^ 64))),
           a_colorOverride := Some (GradientBrush
             (ComputeGradient boxWidth (s_width sz)
                (to_int ((left + ((columnWidth - to_size_t photoWidth) mod 2 ^ 64) div 2)
                           mod 2 ^ 64))
                photoWidth))\<rparr>)"

fun layout_from ::
  "accounts_style \<Rightarrow> int \<Rightarrow> qsize \<Rightarrow> int \<Rightarrow> nat \<Rightarrow> account list \<Rightarrow> account list" where
  "layout_from ast boxWidth sz columnWidth i [] = []"
| "layout_from ast boxWidth sz columnWidth i (a # accs) =
     layout_account ast boxWidth sz columnWidth i a
       # layout_from ast boxWidth sz columnWidth (Suc i) accs"

text \<open>
  The handler of \<^verbatim>\<open>container->sizeValue()\<close>:
  \<^verbatim>\<open>columnWidth = size.width() / count\<close> divides by the number of accounts.
\<close>

definition container_resized ::
  "accounts_style \<Rightarrow> int \<Rightarrow> qsize \<Rightarrow> accounts_row \<Rightarrow> failure + accounts_row" where
  "container_resized ast boxWidth sz row =
     (let count = int (length (accounts row))
      in if count = 0 then Inl DivisionByZero
         else
           let columnWidth = to_size_t (s_width sz) div count
           in Inr (row\<lparr>accounts := layout_from ast boxWidth sz columnWidth 0 (accounts row)\<rparr>))"

text \<open>
  What happens to the row: a click on the button of an account, or a new size of the
  container. A run of such events ends at the first failure.
\<close>

datatype row_event = Clicked nat | Resized qsize

fun row_do ::
  "(radio_group \<Rightarrow> int \<Rightarrow> bool) \<Rightarrow> accounts_style \<Rightarrow> int \<Rightarrow> row_event \<Rightarrow> accounts_row
     \<Rightarrow> failure + accounts_row" where
  "row_do fires ast boxWidth (Clicked i) row = Inr (clicked fires i row)"
| "row_do fires ast boxWidth (Resized sz) row = container_resized ast boxWidth sz row"

fun row_run ::
  "(radio_group \<Rightarrow> int \<Rightarrow> bool) \<Rightarrow> accounts_style \<Rightarrow> int \<Rightarrow> row_event list \<Rightarrow> accounts_row
     \<Rightarrow> failure + accounts_row" where
  "row_run fires ast boxWidth [] row = Inr row"
| "row_run fires ast boxWidth (e # es) row =
     (case row_do fires ast boxWidth e row of
        Inl f \<Rightarrow> Inl f
      | Inr row' \<Rightarrow> row_run fires ast boxWidth es row')"

subsection \<open>ShowListBox\<close>

record list_entry =
  leftNumber :: int
  rightNumber :: int
  customRightText :: "string option"

text \<open>
  The text factory an entry's line gets. \<open>number\<close> is \<^verbatim>\<open>QString::number\<close>, the factory
  \<^verbatim>\<open>ProcessTextFactory(std::nullopt)\<close> returns.
\<close>

definition entry_text :: "(int \<Rightarrow> string) \<Rightarrow> list_entry \<Rightarrow> int \<Rightarrow> string" where
  "entry_text number entry n =
     (case customRightText entry of
        Some custom \<Rightarrow> if n = rightNumber entry then custom else number n
      | None \<Rightarrow> number n)"

text \<open>The first loop: one \<^verbatim>\<open>Line\<close> per entry, in order. \<open>w\<close> is the width the layout gives.\<close>

fun build_lines ::
  "style \<Rightarrow> int \<Rightarrow> int \<Rightarrow> (int \<Rightarrow> string) \<Rightarrow> list_entry list \<Rightarrow> line list \<Rightarrow> line list" where
  "build_lines st parentWidth w number [] lines = lines"
| "build_lines st parentWidth w number (entry # entries) lines =
     build_lines st parentWidth w number entries
       (lines @ [Line_numbers st parentWidth w (rightNumber entry)
                   (entry_text number entry) (leftNumber entry)])"

text \<open>
  The second loop, for line \<open>i\<close>. \<open>line_y\<close> gives the \<^verbatim>\<open>y()\<close> the vertical layout gave
  each line; \<open>from\<close> and \<open>to\<close> are the top of the first line and the bottom of the last.
\<close>

definition color_line :: "(nat \<Rightarrow> int) \<Rightarrow> int \<Rightarrow> int \<Rightarrow> nat \<Rightarrow> line \<Rightarrow> line" where
  "color_line line_y from to i l =
     (let pointTop = line_y i - from;
          pointBottom = pointTop + s_height (l_size l)
      in setColorOverride
           (HeightBrush pointTop pointBottom (to - from) (pointBottom - pointTop)) l)"

fun color_from :: "(nat \<Rightarrow> int) \<Rightarrow> int \<Rightarrow> int \<Rightarrow> nat \<Rightarrow> line list \<Rightarrow> line list" where
  "color_from line_y from to i [] = []"
| "color_from line_y from to i (l # ls) =
     color_line line_y from to i l # color_from line_y from to (Suc i) ls"

record list_box =
  box_lines :: "line list"
  box_title :: string

definition ShowListBox ::
  "style \<Rightarrow> int \<Rightarrow> int \<Rightarrow> (int \<Rightarrow> string) \<Rightarrow> (nat \<Rightarrow> int) \<Rightarrow> list_entry list
     \<Rightarrow> failure + list_box" where
  "ShowListBox st parentWidth w number line_y entries =
     (let lines = build_lines st parentWidth w number entries []
      in if \<not> length lines > 2 then Inl AssertionFailed
         else
           let from = line_y 0;
               to = line_y (length lines - 1) + s_height (l_size (last lines))
           in Inr \<lparr>box_lines = color_from line_y from to 0 lines,
                   box_title = ''lng_premium_summary_subtitle_double_limits''\<rparr>)"

subsection \<open>Concrete inputs\<close>

text \<open>Values for the style parameters, to run the definitions on.\<close>

definition sample_style :: style where
  "sample_style =
     \<lparr>premiumBubbleHeight = 40,
      premiumBubbleTailSize = \<lparr>s_width = 21, s_height = 7\<rparr>,
      premiumBubblePadding_left = 12,
      premiumBubblePadding_right = 12,
      premiumBubbleTextSkip = 5,
      premiumBubblePenWidth = 2,
      premiumBubbleSkip = 5,
      premiumBubbleWidthLimit = 80,
      premiumBubbleSlideDuration = 1000,
      premiumBubbleFont_height = 20,
      icon_width = 20,
      icon_height = 20,
      countWidth = (\<lambda>n. 10),
      requestsAcceptButton_height = 32,
      buttonRadius = 4,
      devicePixelRatio = 1,
      premiumLineTextSkip = 8,
      textMinHeight = 18,
      textCountWidth = (\<lambda>t w. min w (8 * int (length t)))\<rparr>"

definition sample_accounts_style :: accounts_style where
  "sample_accounts_style =
     \<lparr>imageRadius = 25,
      selectWidth = 2,
      premiumAccountsLabelSize = \<lparr>s_width = 26, s_height = 16\<rparr>,
      premiumAccountsLabelPadding_left = 2,
      premiumAccountsLabelPadding_top = 2,
      premiumAccountsLabelPadding_right = 2,
      premiumAccountsLabelPadding_bottom = 2,
      accounts_devicePixelRatio = 1\<rparr>"

section \<open>Properties\<close>

subsection \<open>Helper lemmas: clamp and tail edge\<close>

lemma clamp_unit_cases:
  "e \<noteq> NaN \<Longrightarrow> std_clamp float_less e (Finite 0) (Finite 1) = clamp_unit_spec e"
  by (cases e) (auto simp: std_clamp_def)

lemma clamp_unit_in_range: "e \<noteq> NaN \<Longrightarrow> in_unit_range (clamp_unit_spec e)"
  by (cases e) auto

lemma bubble_do_tailEdge:
  "\<not> passes_nan x \<Longrightarrow> in_unit_range (tailEdge b) \<Longrightarrow> in_unit_range (tailEdge (bubble_do x b))"
  by (cases x) (auto simp: setCounter_def setTailEdge_def clamp_unit_cases clamp_unit_in_range)

lemma bubble_run_tailEdge:
  "list_all (\<lambda>x. \<not> passes_nan x) ops \<Longrightarrow> in_unit_range (tailEdge b) \<Longrightarrow>
     in_unit_range (tailEdge (bubble_run ops b))"
  by (induction ops arbitrary: b) (auto simp: bubble_do_tailEdge)

lemma setCounter_counter: "counter (setCounter v b) = v"
  by (simp add: setCounter_def)

lemma setTailEdge_counter: "counter (setTailEdge e b) = counter b"
  by (simp add: setTailEdge_def)

lemma paintEvent_nothing:
  "counter (w_bubble bw) \<le> 0 \<Longrightarrow> paintEvent rnd st boxWidth parentWidth x bw = (bw, [])"
  by (simp add: paintEvent_def)

lemma paintEvent_painted:
  "snd (paintEvent rnd st boxWidth parentWidth x bw) \<noteq> [] \<Longrightarrow> 0 < counter (w_bubble bw)"
  by (cases "counter (w_bubble bw) \<le> 0") (simp_all add: paintEvent_def)

lemma widget_do_painted:
  "snd (widget_do rnd st e bw) \<noteq> [] \<Longrightarrow> 0 < counter (w_bubble bw)"
  by (cases e) (auto dest: paintEvent_painted)

lemma widget_trace_painted:
  "(c, ops) \<in> set (widget_trace rnd st evs bw) \<Longrightarrow> ops \<noteq> [] \<Longrightarrow> 0 < c"
  by (induction evs arbitrary: bw) (auto dest: widget_do_painted)

subsection \<open>Helper lemmas: rounding and the counter of a tick\<close>

lemma rounding_int: "is_rounding rnd \<Longrightarrow> \<bar>k\<bar> \<le> 2 ^ 53 \<Longrightarrow> rnd (real_of_int k) = real_of_int k"
  by (simp add: is_rounding_def)


lemma rounding_1: "is_rounding rnd \<Longrightarrow> rnd 1 = 1"
  using rounding_int [of rnd 1] by simp

lemma rounding_mono: "is_rounding rnd \<Longrightarrow> x \<le> y \<Longrightarrow> rnd x \<le> rnd y"
  by (simp add: is_rounding_def mono_def)




lemma int_of_float_int: "int_of_float (real_of_int k) = k"
  by (simp add: int_of_float_def)



lemma counterProgress_end:
  assumes "is_rounding rnd" "0 < s" "s \<le> 1"
  shows "counterProgress rnd s 1 = 1"
proof -
  have "1 \<le> 1 / s" using assms by simp
  then have "rnd 1 \<le> rnd (1 / s)" using assms(1) by (simp add: rounding_mono)
  then have "1 \<le> rnd (1 / s)" using assms(1) by (simp add: rounding_1)
  then show ?thesis by (simp add: counterProgress_def fdiv_def std_clamp_def)
qed




lemma tick_counter_end:
  assumes "is_rounding rnd" "0 < s" "s \<le> 1" "\<bar>cur\<bar> \<le> 2147483647"
  shows "tick_counter rnd s cur 1 = cur"
proof -
  have "rnd (real_of_int cur) = real_of_int cur"
    using assms by (simp add: rounding_int)
  moreover have "counterProgress rnd s 1 = 1"
    using assms by (simp add: counterProgress_end)
  ultimately show ?thesis
    by (simp add: tick_counter_def fmul_def int_of_float_int)
qed

subsection \<open>Helper lemmas: what the events of a BubbleWidget keep\<close>

lemma start_appearance_fields:
  "currentCounter (start_appearance st e bw) = currentCounter bw"
  "showFinishes_left (start_appearance st e bw) = showFinishes_left bw"
  "animation_starts (start_appearance st e bw) = animation_starts bw + 1"
  "w_bubble (start_appearance st e bw) = w_bubble bw"
  "stepAfterDeflection (start_appearance st e bw) =
     (if e \<noteq> Finite 0 then 1 else stepAfterDeflection bw)"
  "appearanceAnimation (start_appearance st e bw) =
     Some \<lparr>a_from = 0, a_to = 1,
           a_duration = premiumBubbleSlideDuration st
             * (if e \<noteq> Finite 0 then kStepBeforeDeflection else 1),
           a_bubbleEdge = e, a_current = 0\<rparr>"
  by (simp_all add: start_appearance_def Let_def)

lemma appearance_callback_fields:
  "currentCounter (appearance_callback rnd e v bw) = currentCounter bw"
  "showFinishes_left (appearance_callback rnd e v bw) = showFinishes_left bw"
  "animation_starts (appearance_callback rnd e v bw) = animation_starts bw"
  "stepAfterDeflection (appearance_callback rnd e v bw) = stepAfterDeflection bw"
  "appearanceAnimation (appearance_callback rnd e v bw) = appearanceAnimation bw"
  "counter (w_bubble (appearance_callback rnd e v bw)) =
     tick_counter rnd (stepAfterDeflection bw) (currentCounter bw) v"
  by (simp_all add: appearance_callback_def Let_def setTailEdge_counter setCounter_counter)

lemma paintEvent_fields:
  "currentCounter (fst (paintEvent rnd st bx pw x bw)) = currentCounter bw"
  "showFinishes_left (fst (paintEvent rnd st bx pw x bw)) = showFinishes_left bw"
  "animation_starts (fst (paintEvent rnd st bx pw x bw)) = animation_starts bw"
  "stepAfterDeflection (fst (paintEvent rnd st bx pw x bw)) = stepAfterDeflection bw"
  by (simp_all add: paintEvent_def Let_def split: option.split)





lemma BubbleWidget_fields:
  "currentCounter (BubbleWidget st nmw current maxC possible) = current"
  "stepAfterDeflection (BubbleWidget st nmw current maxC possible) = kStepAfterDeflection"
  "showFinishes_left (BubbleWidget st nmw current maxC possible) = 1"
  "animation_starts (BubbleWidget st nmw current maxC possible) = 0"
  "w_bubble (BubbleWidget st nmw current maxC possible) = Bubble possible"
  by (simp_all add: BubbleWidget_def resizeTo_def)




lemma on_tick_take:
  "showFinishes_left (on_tick rnd v bw) = showFinishes_left bw"
  "animation_starts (on_tick rnd v bw) = animation_starts bw"
  "appearanceAnimation bw = None \<Longrightarrow> appearanceAnimation (on_tick rnd v bw) = None"
  by (simp_all add: on_tick_def appearance_callback_fields split: option.split)

lemma on_finish_take:
  "showFinishes_left (on_finish rnd bw) = showFinishes_left bw"
  "animation_starts (on_finish rnd bw) = animation_starts bw"
  "appearanceAnimation bw = None \<Longrightarrow> appearanceAnimation (on_finish rnd bw) = None"
  by (simp_all add: on_finish_def appearance_callback_fields split: option.split)

lemma paintEvent_take:
  "appearanceAnimation (fst (paintEvent rnd st bx pw x bw)) = appearanceAnimation bw"
  by (simp add: paintEvent_def Let_def split: option.split)

lemma widget_do_other:
  assumes "\<not> is_showFinishes e"
  shows "showFinishes_left (fst (widget_do rnd st e bw)) = showFinishes_left bw"
    and "animation_starts (fst (widget_do rnd st e bw)) = animation_starts bw"
    and "appearanceAnimation bw = None \<Longrightarrow> appearanceAnimation (fst (widget_do rnd st e bw)) = None"
  using assms
  by (cases e; simp add: on_tick_take on_finish_take paintEvent_fields paintEvent_take resizeTo_def)+

lemma on_showFinishes_take:
  "showFinishes_left bw \<le> 1 \<Longrightarrow> showFinishes_left (on_showFinishes st e bw) = 0"
  "animation_starts (on_showFinishes st e bw)
     = animation_starts bw + (if showFinishes_left bw = 0 then 0 else 1)"
  by (simp_all add: on_showFinishes_def start_appearance_fields)

lemma widget_run_starts:
  "showFinishes_left bw \<le> 1 \<Longrightarrow>
     animation_starts (widget_run rnd st evs bw)
       = animation_starts bw
         + (if 0 < showFinishes_left bw \<and> list_ex is_showFinishes evs then 1 else 0)"
proof (induction evs arbitrary: bw)
  case Nil
  then show ?case by simp
next
  case (Cons e evs)
  show ?case
  proof (cases "is_showFinishes e")
    case True
    then obtain x where e: "e = ShowFinishes x" by (cases e) simp_all
    have "showFinishes_left (on_showFinishes st x bw) = 0"
      using Cons.prems by (rule on_showFinishes_take)
    then have "animation_starts (widget_run rnd st evs (on_showFinishes st x bw))
        = animation_starts (on_showFinishes st x bw)"
      using Cons.IH [of "on_showFinishes st x bw"] by simp
    then show ?thesis
      using e by (simp add: on_showFinishes_take)
  next
    case False
    have "showFinishes_left (fst (widget_do rnd st e bw)) \<le> 1"
      using False Cons.prems by (simp add: widget_do_other)
    then have "animation_starts (widget_run rnd st evs (fst (widget_do rnd st e bw)))
        = animation_starts (fst (widget_do rnd st e bw))
          + (if 0 < showFinishes_left (fst (widget_do rnd st e bw))
                \<and> list_ex is_showFinishes evs then 1 else 0)"
      by (rule Cons.IH)
    then show ?thesis
      using False by (simp add: widget_do_other)
  qed
qed

lemma widget_run_not_started:
  "\<not> list_ex is_showFinishes evs \<Longrightarrow> appearanceAnimation bw = None \<Longrightarrow>
     appearanceAnimation (widget_run rnd st evs bw) = None
     \<and> showFinishes_left (widget_run rnd st evs bw) = showFinishes_left bw"
  by (induction evs arbitrary: bw) (simp_all add: widget_do_other)

lemma widget_run_append:
  "widget_run rnd st (evs @ evs') bw = widget_run rnd st evs' (widget_run rnd st evs bw)"
  by (induction evs arbitrary: bw) simp_all

lemma BubbleWidget_animation:
  "appearanceAnimation (BubbleWidget st nmw current maxC possible) = None"
  by (simp add: BubbleWidget_def resizeTo_def)

lemma counterProgress_full:
  assumes "is_rounding rnd" "0 < s" "s \<le> v"
  shows "counterProgress rnd s v = 1"
proof -
  have "1 \<le> v / s" using assms by simp
  then have "rnd 1 \<le> rnd (v / s)" using assms(1) by (simp add: rounding_mono)
  then have "1 \<le> rnd (v / s)" using assms(1) by (simp add: rounding_1)
  then show ?thesis by (simp add: counterProgress_def fdiv_def std_clamp_def)
qed

lemma tick_counter_full:
  assumes "is_rounding rnd" "0 < s" "s \<le> v" "\<bar>cur\<bar> \<le> 2147483647"
  shows "tick_counter rnd s cur v = cur"
proof -
  have "rnd (real_of_int cur) = real_of_int cur"
    using assms by (simp add: rounding_int)
  moreover have "counterProgress rnd s v = 1"
    using assms by (simp add: counterProgress_full)
  ultimately show ?thesis
    by (simp add: tick_counter_def fmul_def int_of_float_int)
qed








subsection \<open>The tail edge of a bubble\<close>

text \<open>
  Claim C1, amended. \<^verbatim>\<open>Bubble::setTailEdge(e)\<close> stores \<^verbatim>\<open>std::clamp(e, 0., 1.)\<close>. For every
  \<open>e\<close> that is not NaN (the infinities included) this is the number \<open>e\<close> clamped to
  \<open>[0, 1]\<close>, and it lies in \<open>[0, 1]\<close>; for NaN both comparisons of the clamp are false
  and NaN is stored. The tail edge starts as 0, so it is in \<open>[0, 1]\<close> after every sequence
  of \<^verbatim>\<open>setCounter\<close> and \<^verbatim>\<open>setTailEdge\<close> calls none of which passes NaN.
\<close>

theorem tailEdge_unit_range:
  "(e \<noteq> NaN \<longrightarrow>
      tailEdge (setTailEdge e b) = clamp_unit_spec e \<and> in_unit_range (tailEdge (setTailEdge e b)))
   \<and> tailEdge (setTailEdge NaN b) = NaN
   \<and> tailEdge (Bubble possible) = Finite 0
   \<and> (list_all (\<lambda>x. \<not> passes_nan x) ops \<longrightarrow>
        in_unit_range (tailEdge (bubble_run ops (Bubble possible))))"
proof -
  have stored: "tailEdge (setTailEdge e b) = clamp_unit_spec e" if "e \<noteq> NaN"
    using that by (simp add: setTailEdge_def clamp_unit_cases)
  have nan: "tailEdge (setTailEdge NaN b) = NaN"
    by (simp add: setTailEdge_def std_clamp_def)
  have init: "tailEdge (Bubble possible) = Finite 0"
    by (simp add: Bubble_def)
  have run: "in_unit_range (tailEdge (bubble_run ops (Bubble possible)))"
    if "list_all (\<lambda>x. \<not> passes_nan x) ops"
    using that by (rule bubble_run_tailEdge) (simp add: init)
  show ?thesis
    using stored nan init run by (simp add: clamp_unit_in_range)
qed

theorem tailEdge_unit_range_witness:
  "Finite 3 \<noteq> NaN
   \<and> tailEdge (setTailEdge (Finite 3) (Bubble True)) = Finite 1
   \<and> in_unit_range (tailEdge (setTailEdge (Finite 3) (Bubble True)))
   \<and> list_all (\<lambda>x. \<not> passes_nan x) [SetTailEdge (Finite 3), SetCounter 5, SetTailEdge NegInf]
   \<and> in_unit_range (tailEdge (bubble_run [SetTailEdge (Finite 3), SetCounter 5, SetTailEdge NegInf] (Bubble True)))"
  using tailEdge_unit_range [of "Finite 3" "Bubble True" True "[SetTailEdge (Finite 3), SetCounter 5, SetTailEdge NegInf]"]
  by simp

text \<open>
  The claim as stated, for every \<^verbatim>\<open>float64\<close>, fails at NaN: the stored value is NaN, which
  is not in \<open>[0, 1]\<close>.
\<close>

theorem tailEdge_nan_counterexample:
  "tailEdge (setTailEdge NaN (Bubble True)) = NaN
   \<and> \<not> in_unit_range (tailEdge (bubble_run [SetTailEdge NaN] (Bubble True)))"
  by (simp add: setTailEdge_def std_clamp_def)

subsection \<open>The counter during the appearance animation\<close>




subsection \<open>The appearance animation starts once\<close>

text \<open>
  Claim C7. After any events, \<^verbatim>\<open>_appearanceAnimation.start\<close> was called once if a
  \<^verbatim>\<open>showFinishes\<close> event was among them and never otherwise: the first such event starts
  the animation and later ones start nothing. Before the first event no animation runs;
  the first event starts one that goes from 0 to 1.
\<close>

theorem appearance_started_once:
  "animation_starts (widget_run rnd st evs (BubbleWidget st nmw current maxC possible))
     = (if list_ex is_showFinishes evs then 1 else 0)
   \<and> (\<not> list_ex is_showFinishes evs \<longrightarrow>
        appearanceAnimation (widget_run rnd st evs (BubbleWidget st nmw current maxC possible))
          = None
        \<and> appearanceAnimation
            (widget_run rnd st (evs @ [ShowFinishes e])
               (BubbleWidget st nmw current maxC possible))
          = Some \<lparr>a_from = 0, a_to = 1,
                  a_duration = premiumBubbleSlideDuration st
                    * (if e \<noteq> Finite 0 then kStepBeforeDeflection else 1),
                  a_bubbleEdge = e, a_current = 0\<rparr>)"
proof -
  let ?w = "BubbleWidget st nmw current maxC possible"
  have "animation_starts (widget_run rnd st evs ?w)
      = (if list_ex is_showFinishes evs then 1 else 0)"
    using widget_run_starts [of ?w rnd st evs] by (simp add: BubbleWidget_fields)
  moreover have "appearanceAnimation (widget_run rnd st (evs @ [ShowFinishes e]) ?w)
      = Some \<lparr>a_from = 0, a_to = 1,
              a_duration = premiumBubbleSlideDuration st
                * (if e \<noteq> Finite 0 then kStepBeforeDeflection else 1),
              a_bubbleEdge = e, a_current = 0\<rparr>"
    if "\<not> list_ex is_showFinishes evs"
  proof -
    have "showFinishes_left (widget_run rnd st evs ?w) = 1"
      using widget_run_not_started [where rnd = rnd and st = st and bw = ?w, OF that BubbleWidget_animation]
      by (simp add: BubbleWidget_fields)
    then show ?thesis
      by (simp add: widget_run_append on_showFinishes_def start_appearance_fields)
  qed
  moreover have "appearanceAnimation (widget_run rnd st evs ?w) = None"
    if "\<not> list_ex is_showFinishes evs"
    using widget_run_not_started [where rnd = rnd and st = st and bw = ?w, OF that BubbleWidget_animation]
    by simp
  ultimately show ?thesis by simp
qed

theorem appearance_started_once_witness:
  "\<not> list_ex is_showFinishes [WidthChanged, Paint 400 380 0]
   \<and> animation_starts
       (widget_run id sample_style [WidthChanged, Paint 400 380 0, ShowFinishes (Finite 0), Tick (1/2), ShowFinishes PosInf]
          (BubbleWidget sample_style id 8 10 True)) = 1
   \<and> appearanceAnimation
       (widget_run id sample_style ([WidthChanged, Paint 400 380 0] @ [ShowFinishes (Finite 0)])
          (BubbleWidget sample_style id 8 10 True))
     = Some \<lparr>a_from = 0, a_to = 1, a_duration = 1000, a_bubbleEdge = Finite 0, a_current = 0\<rparr>"
  using appearance_started_once [of id sample_style "[WidthChanged, Paint 400 380 0]" id 8 10 True "Finite 0"]
    appearance_started_once [of id sample_style "[WidthChanged, Paint 400 380 0, ShowFinishes (Finite 0), Tick (1/2), ShowFinishes PosInf]" id 8 10 True "Finite 0"]
  by (simp add: sample_style_def)

subsection \<open>Nothing is painted before the counter is positive\<close>

text \<open>
  Claim C8. The counter of a new bubble is \<open>-1\<close>; \<^verbatim>\<open>Bubble::paintBubble\<close> makes no painter
  call while the counter is negative; \<^verbatim>\<open>BubbleWidget::paintEvent\<close> makes none, and changes
  nothing, while the counter is zero or less. So in every run of events of a widget, an
  event that painted anything found a positive counter.
\<close>

theorem bubble_not_painted_before_positive:
  "counter (Bubble possible) = - 1
   \<and> (counter b < 0 \<longrightarrow> paintBubble st b r br = [])
   \<and> (counter (w_bubble bw) \<le> 0 \<longrightarrow> paintEvent rnd st boxWidth parentWidth x bw = (bw, []))
   \<and> (\<forall>(c, ops) \<in> set (widget_trace rnd st evs bw). ops \<noteq> [] \<longrightarrow> 0 < c)"
  by (auto simp: Bubble_def paintBubble_def paintEvent_nothing dest: widget_trace_painted)

theorem bubble_not_painted_before_positive_witness:
  "counter (Bubble True) < 0
   \<and> paintBubble sample_style (Bubble True)
        \<lparr>r_x = 0, r_y = 0, r_width = 60, r_height = 47\<rparr> NoBrush = []
   \<and> counter (w_bubble (BubbleWidget sample_style id 8 10 True)) \<le> 0
   \<and> paintEvent id sample_style 400 380 0 (BubbleWidget sample_style id 8 10 True)
       = (BubbleWidget sample_style id 8 10 True, [])
   \<and> (8, [Translate 29 52, Scale 1, Rotate 0, Translate (- 29) (- 52),
           DrawPath (GradientBrush \<lparr>g_full = 400, g_from = 10, g_to = 69, g_span = 59\<rparr>)
             True (Finite 0) \<lparr>r_x = 1, r_y = 6, r_width = 57, r_height = 38\<rparr> 18,
           PaintIcon 12 15 57, PaintNumbers 37 15 29])
       \<in> set (widget_trace id sample_style
            [Paint 400 380 0, ShowFinishes (Finite 0), Tick 0, Paint 400 380 0, Tick 1,
             Paint 400 380 0]
            (BubbleWidget sample_style id 8 10 True))
   \<and> (0::int) < 8"
  using bubble_not_painted_before_positive [of True "Bubble True" sample_style
      "\<lparr>r_x = 0, r_y = 0, r_width = 60, r_height = 47\<rparr>" NoBrush
      "BubbleWidget sample_style id 8 10 True" id 400 380 0
      "[Paint 400 380 0, ShowFinishes (Finite 0), Tick 0, Paint 400 380 0, Tick 1, Paint 400 380 0]"]
  by (simp add: sample_style_def BubbleWidget_def resizeTo_def Bubble_def paintEvent_def
     on_showFinishes_def start_appearance_def on_tick_def appearance_callback_def tick_counter_def
     counterProgress_def fdiv_def fmul_def fsub_def std_clamp_def int_of_float_def setCounter_def
     setTailEdge_def Let_def kStepAfterDeflection_def kStepBeforeDeflection_def kDeflection_def
     kDeflectionSmall_def bubble_width_def bubble_height_def filledWidth_def paintBubble_def
     marginsRemoved_def ComputeGradient_def tdiv_def bubbleRadius_def textTop_def
     kBubbleRadiusSubtractor_def)

subsection \<open>Helper lemmas: the pixmaps of a line\<close>

lemma tdiv_nonneg: "0 \<le> a \<Longrightarrow> 0 < b \<Longrightarrow> tdiv a b = a div b"
  by (simp add: tdiv_def)

lemma tdiv_mult_self: "0 \<le> a \<Longrightarrow> 0 < d \<Longrightarrow> tdiv (a * d) d = a"
  by (simp add: tdiv_nonneg)

lemma recache_keeps:
  "leftWidth (recache st pw s l) = leftWidth l"
  "rightWidth (recache st pw s l) = rightWidth l"
  "l_updates (recache st pw s l) = l_updates l"
  "l_size (recache st pw s l) = l_size l"
  "overrideBrush (recache st pw s l) = overrideBrush l"
  by (simp_all add: recache_def Let_def)

lemma recache_left:
  "leftPixmap (recache st pw s l) =
     fillPath
       \<lparr>round_rect = \<lparr>r_x = 0, r_y = 0, r_width = leftWidth l, r_height = s_height s\<rparr>,
        round_radius = buttonRadius st,
        plain_rect = setLeft
          (center_x \<lparr>r_x = 0, r_y = 0, r_width = leftWidth l, r_height = s_height s\<rparr>)
          \<lparr>r_x = 0, r_y = 0, r_width = leftWidth l, r_height = s_height s\<rparr>\<rparr>
       (StyleBrush ''windowShadowFgFallback'')
       (setDevicePixelRatio (devicePixelRatio st)
          (QPixmap (leftWidth l * devicePixelRatio st) (s_height s * devicePixelRatio st)))"
  by (simp add: recache_def Let_def)

lemma recache_right:
  "rightPixmap (recache st pw s l) =
     fillPath
       \<lparr>round_rect = \<lparr>r_x = 0, r_y = 0, r_width = leftWidth l, r_height = s_height s\<rparr>,
        round_radius = buttonRadius st,
        plain_rect = setRight
          (center_x \<lparr>r_x = 0, r_y = 0, r_width = leftWidth l, r_height = s_height s\<rparr>)
          \<lparr>r_x = 0, r_y = 0, r_width = leftWidth l, r_height = s_height s\<rparr>\<rparr>
       (case overrideBrush l of
          Some br \<Rightarrow> br
        | None \<Rightarrow>
            GradientBrush
              (ComputeGradient pw (s_width (l_size l))
                 (tdiv (p_width (leftPixmap (recache st pw s l))) (devicePixelRatio st))
                 (leftWidth l)))
       (setDevicePixelRatio (devicePixelRatio st)
          (QPixmap (leftWidth l * devicePixelRatio st) (s_height s * devicePixelRatio st)))"
  by (simp add: recache_def Let_def split: option.split)

lemma recache_same:
  assumes "leftWidth l = leftWidth l'" "overrideBrush l = overrideBrush l'" "l_size l = l_size l'"
  shows "leftPixmap (recache st pw s l) = leftPixmap (recache st pw s l')"
    and "rightPixmap (recache st pw s l) = rightPixmap (recache st pw s l')"
  using assms by (simp_all add: recache_def Let_def split: option.split)

lemma pixmap_width:
  "0 < w \<Longrightarrow> 0 < h \<Longrightarrow> 0 < d \<Longrightarrow>
     p_width (fillPath pa br (setDevicePixelRatio d (QPixmap (w * d) (h * d)))) = w * d
     \<and> p_ratio (fillPath pa br (setDevicePixelRatio d (QPixmap (w * d) (h * d)))) = d"
  by (simp add: fillPath_def setDevicePixelRatio_def QPixmap_def isNull_def null_pixmap_def not_le)

lemma recache_widths:
  assumes "0 < leftWidth l" "0 < s_height s" "0 < devicePixelRatio st"
  shows "p_width (leftPixmap (recache st pw s l)) = leftWidth l * devicePixelRatio st"
    and "p_ratio (leftPixmap (recache st pw s l)) = devicePixelRatio st"
    and "p_width (rightPixmap (recache st pw s l)) = leftWidth l * devicePixelRatio st"
    and "p_ratio (rightPixmap (recache st pw s l)) = devicePixelRatio st"
  using assms pixmap_width [of "leftWidth l" "s_height s" "devicePixelRatio st"]
  by (simp_all add: recache_def Let_def split: option.split)

lemma line_resized_empty:
  "isEmpty s \<Longrightarrow> line_resized st pw s l = l\<lparr>l_size := s\<rparr>"
  by (simp add: line_resized_def)

lemma line_resized_fields:
  assumes "\<not> isEmpty s"
  shows "leftWidth (line_resized st pw s l) = tdiv (s_width s) 2"
    and "rightWidth (line_resized st pw s l) = s_width s - tdiv (s_width s) 2"
    and "l_updates (line_resized st pw s l) = l_updates l + 1"
    and "l_size (line_resized st pw s l) = s"
    and "overrideBrush (line_resized st pw s l) = overrideBrush l"
    and "leftPixmap (line_resized st pw s l)
           = leftPixmap (recache st pw s (l\<lparr>l_size := s, leftWidth := tdiv (s_width s) 2\<rparr>))"
    and "rightPixmap (line_resized st pw s l)
           = rightPixmap (recache st pw s (l\<lparr>l_size := s, leftWidth := tdiv (s_width s) 2\<rparr>))"
  using assms
  by (simp_all add: line_resized_def Let_def recache_keeps
      recache_same [of "l\<lparr>l_size := s, leftWidth := tdiv (s_width s) 2, rightWidth := s_width s - tdiv (s_width s) 2\<rparr>"
                       "l\<lparr>l_size := s, leftWidth := tdiv (s_width s) 2\<rparr>"])

lemma line_resized_covers:
  assumes "2 \<le> s_width s" "0 < s_height s" "0 < devicePixelRatio st"
  shows "pixmap_columns 0 (leftPixmap (line_resized st pw s l))
           \<union> pixmap_columns (leftWidth (line_resized st pw s l))
               (rightPixmap (line_resized st pw s l))
         = {0 ..< 2 * (s_width s div 2)}"
proof -
  have ne: "\<not> isEmpty s" using assms by (simp add: isEmpty_def)
  have lw: "tdiv (s_width s) 2 = s_width s div 2" using assms by (simp add: tdiv_nonneg)
  have pos: "0 < s_width s div 2" using assms by simp
  let ?l = "l\<lparr>l_size := s, leftWidth := tdiv (s_width s) 2\<rparr>"
  let ?L = "line_resized st pw s l"
  have "0 < leftWidth ?l" using pos by (simp add: lw)
  note w = recache_widths [OF this assms(2,3), of pw]
  have pos': "0 \<le> tdiv (s_width s) 2" using pos by (simp add: lw)
  have "tdiv (p_width (leftPixmap ?L)) (p_ratio (leftPixmap ?L)) = tdiv (s_width s) 2"
    using assms(3) pos' by (simp add: line_resized_fields [OF ne] w tdiv_mult_self)
  then have "tdiv (p_width (leftPixmap ?L)) (p_ratio (leftPixmap ?L)) = s_width s div 2"
    by (simp add: lw)
  moreover
  have "tdiv (p_width (rightPixmap ?L)) (p_ratio (rightPixmap ?L)) = tdiv (s_width s) 2"
    using assms(3) pos' by (simp add: line_resized_fields [OF ne] w tdiv_mult_self)
  then have "tdiv (p_width (rightPixmap ?L)) (p_ratio (rightPixmap ?L)) = s_width s div 2"
    by (simp add: lw)
  moreover have "leftWidth ?L = s_width s div 2"
    by (simp add: line_resized_fields [OF ne] lw)
  ultimately show ?thesis
    by (auto simp: pixmap_columns_def)
qed

subsection \<open>A resized line recaches\<close>

text \<open>
  Claim C4, amended. When a \<^verbatim>\<open>Line\<close> takes a size that is not empty, the two widths are set
  from the new width, both pixmaps are made anew by \<^verbatim>\<open>recache\<close>, and \<^verbatim>\<open>update()\<close> is called
  once. The new pixmaps are the ones given below: the left one is made from the new size
  alone, the right one from the new size and the colour override (or, without one, the
  gradient computed for the new left pixmap's width); neither depends on the old
  pixmaps. When the line takes an empty size (a width or height of zero or less), the
  handler returns at once: widths and pixmaps stay as they were and \<^verbatim>\<open>update()\<close> is not
  called.
\<close>

theorem line_resized_recaches:
  "(\<not> isEmpty s \<longrightarrow>
      leftWidth (line_resized st pw s l) = tdiv (s_width s) 2
      \<and> rightWidth (line_resized st pw s l) = s_width s - tdiv (s_width s) 2
      \<and> leftPixmap (line_resized st pw s l) =
          fillPath
            \<lparr>round_rect = \<lparr>r_x = 0, r_y = 0, r_width = tdiv (s_width s) 2, r_height = s_height s\<rparr>,
             round_radius = buttonRadius st,
             plain_rect = setLeft
               (center_x \<lparr>r_x = 0, r_y = 0, r_width = tdiv (s_width s) 2, r_height = s_height s\<rparr>)
               \<lparr>r_x = 0, r_y = 0, r_width = tdiv (s_width s) 2, r_height = s_height s\<rparr>\<rparr>
            (StyleBrush ''windowShadowFgFallback'')
            (setDevicePixelRatio (devicePixelRatio st)
               (QPixmap (tdiv (s_width s) 2 * devicePixelRatio st)
                  (s_height s * devicePixelRatio st)))
      \<and> rightPixmap (line_resized st pw s l) =
          fillPath
            \<lparr>round_rect = \<lparr>r_x = 0, r_y = 0, r_width = tdiv (s_width s) 2, r_height = s_height s\<rparr>,
             round_radius = buttonRadius st,
             plain_rect = setRight
               (center_x \<lparr>r_x = 0, r_y = 0, r_width = tdiv (s_width s) 2, r_height = s_height s\<rparr>)
               \<lparr>r_x = 0, r_y = 0, r_width = tdiv (s_width s) 2, r_height = s_height s\<rparr>\<rparr>
            (case overrideBrush l of
               Some br \<Rightarrow> br
             | None \<Rightarrow>
                 GradientBrush
                   (ComputeGradient pw (s_width s)
                      (tdiv (p_width (leftPixmap (line_resized st pw s l))) (devicePixelRatio st))
                      (tdiv (s_width s) 2)))
            (setDevicePixelRatio (devicePixelRatio st)
               (QPixmap (tdiv (s_width s) 2 * devicePixelRatio st)
                  (s_height s * devicePixelRatio st)))
      \<and> (overrideBrush l = overrideBrush l' \<longrightarrow>
            leftPixmap (line_resized st pw s l) = leftPixmap (line_resized st pw s l')
            \<and> rightPixmap (line_resized st pw s l) = rightPixmap (line_resized st pw s l'))
      \<and> l_updates (line_resized st pw s l) = l_updates l + 1)
   \<and> (isEmpty s \<longrightarrow>
        leftWidth (line_resized st pw s l) = leftWidth l
        \<and> rightWidth (line_resized st pw s l) = rightWidth l
        \<and> leftPixmap (line_resized st pw s l) = leftPixmap l
        \<and> rightPixmap (line_resized st pw s l) = rightPixmap l
        \<and> l_updates (line_resized st pw s l) = l_updates l)"
proof -
  have same: "leftPixmap (line_resized st pw s l) = leftPixmap (line_resized st pw s l')
      \<and> rightPixmap (line_resized st pw s l) = rightPixmap (line_resized st pw s l')"
    if "\<not> isEmpty s" "overrideBrush l = overrideBrush l'"
    using that
    by (simp add: line_resized_fields
        recache_same [of "l\<lparr>l_size := s, leftWidth := tdiv (s_width s) 2\<rparr>"
                         "l'\<lparr>l_size := s, leftWidth := tdiv (s_width s) 2\<rparr>"])
  have right: "rightPixmap (line_resized st pw s l) =
          fillPath
            \<lparr>round_rect = \<lparr>r_x = 0, r_y = 0, r_width = tdiv (s_width s) 2, r_height = s_height s\<rparr>,
             round_radius = buttonRadius st,
             plain_rect = setRight
               (center_x \<lparr>r_x = 0, r_y = 0, r_width = tdiv (s_width s) 2, r_height = s_height s\<rparr>)
               \<lparr>r_x = 0, r_y = 0, r_width = tdiv (s_width s) 2, r_height = s_height s\<rparr>\<rparr>
            (case overrideBrush l of
               Some br \<Rightarrow> br
             | None \<Rightarrow>
                 GradientBrush
                   (ComputeGradient pw (s_width s)
                      (tdiv (p_width (leftPixmap (line_resized st pw s l))) (devicePixelRatio st))
                      (tdiv (s_width s) 2)))
            (setDevicePixelRatio (devicePixelRatio st)
               (QPixmap (tdiv (s_width s) 2 * devicePixelRatio st)
                  (s_height s * devicePixelRatio st)))"
    if "\<not> isEmpty s"
    using that by (simp add: line_resized_fields recache_right split: option.split)
  show ?thesis
    using same right by (simp add: line_resized_empty line_resized_fields recache_left)
qed

theorem line_resized_recaches_witness:
  "\<not> isEmpty \<lparr>s_width = 100, s_height = 32\<rparr>
   \<and> overrideBrush (Line sample_style 400 60 ''10'' ''5'')
       = overrideBrush (Line sample_style 400 5 ''7'' ''3'')
   \<and> leftWidth (line_resized sample_style 400 \<lparr>s_width = 100, s_height = 32\<rparr>
         (Line sample_style 400 60 ''10'' ''5'')) = 50
   \<and> rightWidth (line_resized sample_style 400 \<lparr>s_width = 100, s_height = 32\<rparr>
         (Line sample_style 400 60 ''10'' ''5'')) = 50
   \<and> rightPixmap (line_resized sample_style 400 \<lparr>s_width = 100, s_height = 32\<rparr>
         (Line sample_style 400 60 ''10'' ''5''))
       = \<lparr>p_width = 50, p_height = 32, p_ratio = 1,
          p_fill = Some
            (\<lparr>round_rect = \<lparr>r_x = 0, r_y = 0, r_width = 50, r_height = 32\<rparr>,
              round_radius = 4,
              plain_rect = \<lparr>r_x = 0, r_y = 0, r_width = 25, r_height = 32\<rparr>\<rparr>,
             GradientBrush \<lparr>g_full = 400, g_from = 200, g_to = 250, g_span = 50\<rparr>)\<rparr>
   \<and> rightPixmap (line_resized sample_style 400 \<lparr>s_width = 100, s_height = 32\<rparr>
         (Line sample_style 400 60 ''10'' ''5''))
       = rightPixmap (line_resized sample_style 400 \<lparr>s_width = 100, s_height = 32\<rparr>
         (Line sample_style 400 5 ''7'' ''3''))
   \<and> l_updates (line_resized sample_style 400 \<lparr>s_width = 100, s_height = 32\<rparr>
         (Line sample_style 400 60 ''10'' ''5'')) = 2
   \<and> isEmpty \<lparr>s_width = 0, s_height = 32\<rparr>
   \<and> rightPixmap (line_resized sample_style 400 \<lparr>s_width = 0, s_height = 32\<rparr>
         (Line sample_style 400 60 ''10'' ''5''))
       = rightPixmap (Line sample_style 400 60 ''10'' ''5'')
   \<and> l_updates (line_resized sample_style 400 \<lparr>s_width = 0, s_height = 32\<rparr>
         (Line sample_style 400 60 ''10'' ''5'')) = 1"
  using line_resized_recaches [of "\<lparr>s_width = 100, s_height = 32\<rparr>" sample_style 400
      "Line sample_style 400 60 ''10'' ''5''" "Line sample_style 400 5 ''7'' ''3''"]
    line_resized_recaches [of "\<lparr>s_width = 0, s_height = 32\<rparr>" sample_style 400
      "Line sample_style 400 60 ''10'' ''5''" "Line sample_style 400 5 ''7'' ''3''"]
  by (simp add: sample_style_def isEmpty_def Line_def line_resized_def recache_def Let_def tdiv_def
      fillPath_def setDevicePixelRatio_def QPixmap_def isNull_def null_pixmap_def
      ComputeGradient_def center_x_def setRight_def setLeft_def)

text \<open>
  The claim as stated, for every resize, fails for a resize to an empty size: a line of
  width 100 that is resized to width 0 keeps its pixmaps of width 50 and is not
  repainted.
\<close>

theorem line_resized_empty_counterexample:
  "l_size (line_resized sample_style 400 \<lparr>s_width = 0, s_height = 32\<rparr>
      (Line sample_style 400 100 ''10'' ''5'')) = \<lparr>s_width = 0, s_height = 32\<rparr>
   \<and> leftPixmap (line_resized sample_style 400 \<lparr>s_width = 0, s_height = 32\<rparr>
        (Line sample_style 400 100 ''10'' ''5''))
       = leftPixmap (Line sample_style 400 100 ''10'' ''5'')
   \<and> rightPixmap (line_resized sample_style 400 \<lparr>s_width = 0, s_height = 32\<rparr>
        (Line sample_style 400 100 ''10'' ''5''))
       = rightPixmap (Line sample_style 400 100 ''10'' ''5'')
   \<and> p_width (leftPixmap (Line sample_style 400 100 ''10'' ''5'')) = 50
   \<and> l_updates (line_resized sample_style 400 \<lparr>s_width = 0, s_height = 32\<rparr>
        (Line sample_style 400 100 ''10'' ''5''))
       = l_updates (Line sample_style 400 100 ''10'' ''5'')"
  by (simp add: sample_style_def isEmpty_def Line_def line_resized_def recache_def Let_def tdiv_def
      fillPath_def setDevicePixelRatio_def QPixmap_def isNull_def null_pixmap_def)

subsection \<open>The two halves of a line\<close>

text \<open>
  Claim C5: for a line of a non-empty size of width \<open>w\<close>, the left cached region is
  \<open>w div 2\<close> wide and the right one \<open>w - w div 2\<close>, the pixmaps are drawn at 0 and at
  \<open>w div 2\<close>, and so the two halves cover the width without gap or overlap. The code at
  a line of width 5: \<^verbatim>\<open>_leftWidth\<close> is 2 and \<^verbatim>\<open>_rightWidth\<close> is 3, and the pixmaps are drawn
  at 0 and at 2, as the claim says. But \<^verbatim>\<open>recache\<close> makes both pixmaps as wide as
  \<^verbatim>\<open>_leftWidth\<close>: the right pixmap covers the columns 2 and 3 only, and column 4 of the
  widget is covered by neither pixmap. (For a width of at least 2 the pixmaps cover the
  columns below \<open>2 * (w div 2)\<close>, lemma \<open>line_resized_covers\<close>: all of them exactly when
  the width is even.)
\<close>

theorem line_odd_width_gap:
  "leftWidth (Line sample_style 400 5 ''10'' ''5'') = 2
   \<and> rightWidth (Line sample_style 400 5 ''10'' ''5'') = 3
   \<and> take 2 (line_paintEvent sample_style (Line sample_style 400 5 ''10'' ''5''))
      = [DrawPixmap 0 0 (leftPixmap (Line sample_style 400 5 ''10'' ''5'')),
         DrawPixmap 2 0 (rightPixmap (Line sample_style 400 5 ''10'' ''5''))]
   \<and> pixmap_columns 0 (leftPixmap (Line sample_style 400 5 ''10'' ''5'')) = {0 ..< 2}
   \<and> pixmap_columns 2 (rightPixmap (Line sample_style 400 5 ''10'' ''5'')) = {2 ..< 4}
   \<and> s_width (l_size (Line sample_style 400 5 ''10'' ''5'')) = 5"
  by (simp add: sample_style_def isEmpty_def Line_def line_resized_def recache_def Let_def tdiv_def
      fillPath_def setDevicePixelRatio_def QPixmap_def isNull_def null_pixmap_def
      line_paintEvent_def pixmap_columns_def)

subsection \<open>Helper lemmas: the accounts row\<close>

lemma add_entries_length: "length (add_entries gv es accs) = length accs + length es"
  by (induction es arbitrary: accs) simp_all

lemma add_entries_checked:
  "(\<forall>j < length accs. a_checked (accs ! j) = (int j = gv)) \<Longrightarrow>
     j < length (add_entries gv es accs) \<Longrightarrow>
     a_checked (add_entries gv es accs ! j) = (int j = gv)"
proof (induction es arbitrary: accs)
  case Nil
  then show ?case by simp
next
  case (Cons e es)
  let ?accs = "accs @ [\<lparr>a_geometry = \<lparr>r_x = 0, r_y = 0, r_width = 0, r_height = 0\<rparr>,
                 a_checked = (int (length accs) = gv), a_colorOverride = None,
                 a_name = e, a_badge = None\<rparr>]"
  have "\<forall>j < length ?accs. a_checked (?accs ! j) = (int j = gv)"
    using Cons.prems(1) by (auto simp: nth_append less_Suc_eq)
  moreover have "j < length (add_entries gv es ?accs)"
    using Cons.prems(2) by simp
  ultimately have "a_checked (add_entries gv es ?accs ! j) = (int j = gv)"
    by (rule Cons.IH)
  then show ?case by simp
qed

lemma set_checked_from_length: "length (set_checked_from k v accs) = length accs"
  by (induction accs arbitrary: k) simp_all

lemma set_checked_from_nth:
  "j < length accs \<Longrightarrow> a_checked (set_checked_from k v accs ! j) = (int (k + j) = v)"
  by (induction accs arbitrary: k j) (auto simp: nth_Cons split: nat.split)

lemma AddAccountsRow_consistent: "row_consistent (AddAccountsRow grp entries)"
  by (simp add: row_consistent_def AddAccountsRow_def add_entries_checked)

lemma AddAccountsRow_length: "length (accounts (AddAccountsRow grp entries)) = length entries"
  by (simp add: AddAccountsRow_def add_entries_length)

lemma changedCallback_checked:
  "j < length (accounts row) \<Longrightarrow>
     a_checked (accounts (changedCallback v row) ! j) = (int j = v)"
  by (simp add: changedCallback_def set_checked_from_nth)

lemma clicked_length: "length (accounts (clicked fires i row)) = length (accounts row)"
  by (simp add: clicked_def changedCallback_def set_checked_from_length Let_def)

lemma clicked_consistent:
  assumes "\<forall>g v. g_value g \<noteq> v \<longrightarrow> fires g v" "row_consistent row"
  shows "row_consistent (clicked fires i row)"
proof (cases "i < length (accounts row)")
  case False
  then show ?thesis using assms(2) by (simp add: clicked_def)
next
  case True
  show ?thesis
  proof (cases "fires (row_group row) (int i)")
    case True
    then show ?thesis
      using \<open>i < length (accounts row)\<close>
      by (simp add: clicked_def row_consistent_def changedCallback_def Let_def
          set_checked_from_nth set_checked_from_length)
  next
    case False
    then have "g_value (row_group row) = int i" using assms(1) by blast
    then show ?thesis
      using False \<open>i < length (accounts row)\<close> assms(2)
      by (simp add: clicked_def row_consistent_def Let_def)
  qed
qed

lemma clicked_value:
  "i < length (accounts row) \<Longrightarrow> g_value (row_group (clicked fires i row)) = int i"
  by (simp add: clicked_def changedCallback_def Let_def)

lemma to_size_t_id: "0 \<le> x \<Longrightarrow> x \<le> 2147483647 \<Longrightarrow> to_size_t x = x"
  by (simp add: to_size_t_def)

lemma to_int_id: "- 2147483648 \<le> x \<Longrightarrow> x \<le> 2147483647 \<Longrightarrow> to_int x = x"
  by (simp add: to_int_def)

lemma to_int_high: "to_int (x + 9223372036854775808) = to_int x"
proof -
  have "(x + 2 ^ 31 + 2147483648 * 2 ^ 32) mod 2 ^ 32 = (x + 2 ^ 31) mod (2 ^ 32 :: int)"
    by (rule mod_mult_self1)
  then show ?thesis by (simp add: to_int_def)
qed

lemma size_t_small: "0 \<le> x \<Longrightarrow> x \<le> 2147483647 \<Longrightarrow> x mod 2 ^ 64 = (x :: int)"
  by simp

lemma size_t_negative:
  assumes "- 2147483647 \<le> x" "x < 0"
  shows "x mod 2 ^ 64 = x + (18446744073709551616 :: int)"
proof -
  have "(x + 18446744073709551616) mod 18446744073709551616 = x mod (18446744073709551616 :: int)"
    by simp
  moreover have "(x + 18446744073709551616) mod 18446744073709551616 = x + (18446744073709551616 :: int)"
    using assms by (intro mod_pos_pos_trivial) simp_all
  ultimately show ?thesis by simp
qed

lemma override_left:
  assumes "0 \<le> L" "0 \<le> c" "L + c \<le> 2147483647" "0 \<le> p" "p \<le> 2147483647"
  shows "to_int ((L + ((c - to_size_t p) mod 2 ^ 64) div 2) mod 2 ^ 64) = L + (c - p) div 2"
proof (cases "p \<le> c")
  case True
  have "(c - p) mod 2 ^ 64 = c - p"
    using True assms by (intro size_t_small) simp_all
  moreover have "(L + (c - p) div 2) mod 2 ^ 64 = L + (c - p) div 2"
    using True assms by (intro size_t_small) simp_all
  moreover have "to_int (L + (c - p) div 2) = L + (c - p) div 2"
    using True assms by (intro to_int_id) simp_all
  ultimately show ?thesis using assms by (simp add: to_size_t_id)
next
  case False
  have "(c - p) mod 2 ^ 64 = c - p + 18446744073709551616"
    using False assms by (intro size_t_negative) simp_all
  moreover have "(c - p + 18446744073709551616) div 2 = (c - p) div 2 + 9223372036854775808"
    by simp
  moreover have "(L + ((c - p) div 2 + 9223372036854775808)) mod 2 ^ 64
      = L + ((c - p) div 2 + 9223372036854775808)"
    using False assms by (intro mod_pos_pos_trivial) simp_all
  moreover have "to_int (L + (c - p) div 2 + 9223372036854775808) = to_int (L + (c - p) div 2)"
    by (rule to_int_high)
  moreover have "to_int (L + (c - p) div 2) = L + (c - p) div 2"
    using False assms by (intro to_int_id) simp_all
  ultimately show ?thesis using assms by (simp add: to_size_t_id add.assoc)
qed

lemma layout_from_length: "length (layout_from ast bw sz cw k accs) = length accs"
  by (induction accs arbitrary: k) simp_all

lemma layout_from_nth:
  "j < length accs \<Longrightarrow>
     layout_from ast bw sz cw k accs ! j = layout_account ast bw sz cw (k + j) (accs ! j)"
  by (induction accs arbitrary: k j) (auto simp: nth_Cons split: nat.split)

lemma column_bound:
  assumes "0 \<le> (w::int)" "i < n"
  shows "0 \<le> w div int n * int i" "w div int n * int i + w div int n \<le> w"
proof -
  have n: "0 < int n" using assms by simp
  have cw: "0 \<le> w div int n" using assms n by (simp add: pos_imp_zdiv_nonneg_iff)
  show "0 \<le> w div int n * int i" using cw by simp
  have "w div int n * int i + w div int n = w div int n * (int i + 1)"
    by (simp add: algebra_simps)
  also have "\<dots> \<le> w div int n * int n"
    using cw assms(2) by (intro mult_left_mono) simp_all
  also have "\<dots> \<le> w"
    using div_mult_mod_eq [of w "int n"] pos_mod_sign [of "int n" w] n by linarith
  finally show "w div int n * int i + w div int n \<le> w" .
qed

lemma layout_account_small:
  assumes "0 \<le> s_width sz" "s_width sz \<le> 2147483647"
    and "i < n" "n \<le> 2147483647"
    and "0 \<le> (imageRadius ast + selectWidth ast) * 2"
    and "(imageRadius ast + selectWidth ast) * 2 \<le> 2147483647"
  shows "layout_account ast bw sz (s_width sz div int n) i a
    = a\<lparr>a_geometry := \<lparr>r_x = int i * (s_width sz div int n), r_y = 0,
                          r_width = s_width sz div int n, r_height = s_height sz\<rparr>,
         a_badge := Some (cacheBadge ast bw (s_width sz)
                            (int i * (s_width sz div int n) + (s_width sz div int n) div 2)),
         a_colorOverride := Some (GradientBrush
           (ComputeGradient bw (s_width sz)
              (int i * (s_width sz div int n)
                 + (s_width sz div int n - (imageRadius ast + selectWidth ast) * 2) div 2)
              ((imageRadius ast + selectWidth ast) * 2)))\<rparr>"
proof -
  let ?cw = "s_width sz div int n"
  let ?L = "?cw * int i"
  have b: "0 \<le> ?L" "?L + ?cw \<le> s_width sz"
    using column_bound [OF assms(1,3)] by simp_all
  have cw: "0 \<le> ?cw" using assms(1,3) by (simp add: pos_imp_zdiv_nonneg_iff)
  have i: "to_size_t (int i) = int i"
    using assms(3,4) by (intro to_size_t_id) simp_all
  have L: "?L mod 2 ^ 64 = ?L"
    using b cw assms(2) by (intro size_t_small) linarith+
  have g1: "to_int ?L = ?L" using b cw assms(2) by (intro to_int_id) linarith+
  have g2: "to_int ?cw = ?cw" using b cw assms(2) by (intro to_int_id) linarith+
  have h: "0 \<le> ?cw div 2" "?cw div 2 \<le> ?cw" using cw by linarith+
  have c1: "(?L + ?cw div 2) mod 2 ^ 64 = ?L + ?cw div 2"
    using b h assms(2) by (intro size_t_small) linarith+
  have c2: "to_int (?L + ?cw div 2) = ?L + ?cw div 2"
    using b h assms(2) by (intro to_int_id) linarith+
  have o: "to_int ((?L + ((?cw - to_size_t ((imageRadius ast + selectWidth ast) * 2)) mod 2 ^ 64) div 2)
              mod 2 ^ 64)
      = ?L + (?cw - (imageRadius ast + selectWidth ast) * 2) div 2"
    using b cw assms(2,5,6) by (intro override_left) linarith+
  show ?thesis
    unfolding layout_account_def Let_def i L g1 g2 c1 c2 o
    by (simp add: mult.commute)
qed

lemma container_resized_empty:
  "accounts row = [] \<Longrightarrow> container_resized ast bw sz row = Inl DivisionByZero"
  by (simp add: container_resized_def)

lemma container_resized_nonempty:
  "accounts row \<noteq> [] \<Longrightarrow> 0 \<le> s_width sz \<Longrightarrow> s_width sz \<le> 2147483647 \<Longrightarrow>
     container_resized ast bw sz row
       = Inr (row\<lparr>accounts := layout_from ast bw sz
                 (s_width sz div int (length (accounts row))) 0 (accounts row)\<rparr>)"
  by (simp add: container_resized_def Let_def to_size_t_id)

lemma layout_account_checked:
  "a_checked (layout_account ast bw sz cw i a) = a_checked a"
  by (simp add: layout_account_def Let_def)

lemma container_resized_consistent:
  assumes "container_resized ast bw sz row = Inr row'"
  shows "length (accounts row') = length (accounts row)"
    and "row_group row' = row_group row"
    and "row_consistent row \<Longrightarrow> row_consistent row'"
proof -
  have row': "row' = row\<lparr>accounts := layout_from ast bw sz
      (to_size_t (s_width sz) div int (length (accounts row))) 0 (accounts row)\<rparr>"
    using assms by (simp add: container_resized_def Let_def split: if_splits)
  show "length (accounts row') = length (accounts row)"
    by (simp add: row' layout_from_length)
  show "row_group row' = row_group row"
    by (simp add: row')
  show "row_consistent row'" if "row_consistent row"
    using that
    by (simp add: row' row_consistent_def layout_from_length layout_from_nth layout_account_checked)
qed

lemma row_do_consistent:
  assumes "\<forall>g v. g_value g \<noteq> v \<longrightarrow> fires g v"
    and "row_do fires ast bw e row = Inr row'"
  shows "length (accounts row') = length (accounts row)"
    and "row_consistent row \<Longrightarrow> row_consistent row'"
  using assms
  by (cases e; auto simp: clicked_length clicked_consistent container_resized_consistent)+

lemma row_run_consistent:
  assumes "\<forall>g v. g_value g \<noteq> v \<longrightarrow> fires g v"
  shows "row_run fires ast bw evs row = Inr row' \<Longrightarrow> row_consistent row \<Longrightarrow>
     row_consistent row' \<and> length (accounts row') = length (accounts row)"
proof (induction evs arbitrary: row)
  case Nil
  then show ?case by simp
next
  case (Cons e evs)
  from Cons.prems(1) obtain row1 where
    step: "row_do fires ast bw e row = Inr row1" and rest: "row_run fires ast bw evs row1 = Inr row'"
    by (auto split: sum.splits)
  have "row_consistent row1" "length (accounts row1) = length (accounts row)"
    using row_do_consistent [OF assms step] Cons.prems(2) by simp_all
  then show ?case
    using Cons.IH [OF rest] by simp
qed

lemma row_run_length:
  "row_run fires ast bw evs row = Inr row' \<Longrightarrow> length (accounts row') = length (accounts row)"
proof (induction evs arbitrary: row)
  case Nil
  then show ?case by simp
next
  case (Cons e evs)
  from Cons.prems obtain row1 where
    step: "row_do fires ast bw e row = Inr row1" and rest: "row_run fires ast bw evs row1 = Inr row'"
    by (auto split: sum.splits)
  have "length (accounts row1) = length (accounts row)"
    using step by (cases e) (auto simp: clicked_length container_resized_consistent)
  then show ?case
    using Cons.IH [OF rest] by simp
qed

subsection \<open>A click checks the clicked account\<close>

text \<open>
  Claim C3. The row is the one \<^verbatim>\<open>AddAccountsRow\<close> built, after any clicks and new sizes. A
  click on the button of account \<open>i\<close> sets the group's value to \<open>i\<close>; the changed callback
  called with a value checks the checkbox at that index and unchecks every other one;
  and after the click the checkbox of account \<open>i\<close> is checked and no other is. All that
  is assumed of the toolkit's radio group is that \<^verbatim>\<open>setValue\<close> calls the changed callback
  whenever the value it is given differs from the value the group has.
\<close>

theorem clicked_account_checked:
  assumes "\<forall>g v. g_value g \<noteq> v \<longrightarrow> fires g v"
    and "row_run fires ast boxWidth evs (AddAccountsRow grp entries) = Inr row"
    and "i < length entries"
  shows "g_value (row_group (clicked fires i row)) = int i
    \<and> length (accounts (clicked fires i row)) = length entries
    \<and> (\<forall>j < length entries. a_checked (accounts (changedCallback v row) ! j) = (int j = v))
    \<and> (\<forall>j < length entries. a_checked (accounts (clicked fires i row) ! j) = (j = i))"
proof -
  have "row_consistent row" and len: "length (accounts row) = length entries"
    using row_run_consistent [OF assms(1,2) AddAccountsRow_consistent]
    by (simp_all add: AddAccountsRow_length)
  then have "row_consistent (clicked fires i row)"
    using assms(1) by (simp add: clicked_consistent)
  moreover have "g_value (row_group (clicked fires i row)) = int i"
    using assms(3) len by (simp add: clicked_value)
  ultimately show ?thesis
    using len by (simp add: row_consistent_def clicked_length changedCallback_checked)
qed

theorem clicked_account_checked_witness:
  "\<exists>row. row_run (\<lambda>g v. \<not> g_hasValue g \<or> g_value g \<noteq> v) sample_accounts_style 440
            [Clicked 2, Resized \<lparr>s_width = 400, s_height = 80\<rparr>, Clicked 0]
            (AddAccountsRow \<lparr>g_value = 0, g_hasValue = False\<rparr> [''a'', ''b'', ''c'']) = Inr row
     \<and> a_checked (accounts row ! 0)
     \<and> g_value (row_group (clicked (\<lambda>g v. \<not> g_hasValue g \<or> g_value g \<noteq> v) 1 row)) = 1
     \<and> \<not> a_checked (accounts (clicked (\<lambda>g v. \<not> g_hasValue g \<or> g_value g \<noteq> v) 1 row) ! 0)
     \<and> a_checked (accounts (clicked (\<lambda>g v. \<not> g_hasValue g \<or> g_value g \<noteq> v) 1 row) ! 1)
     \<and> \<not> a_checked (accounts (clicked (\<lambda>g v. \<not> g_hasValue g \<or> g_value g \<noteq> v) 1 row) ! 2)"
proof -
  let ?fires = "\<lambda>g v. \<not> g_hasValue g \<or> g_value g \<noteq> v"
  let ?row0 = "AddAccountsRow \<lparr>g_value = 0, g_hasValue = False\<rparr> [''a'', ''b'', ''c'']"
  let ?evs = "[Clicked 2, Resized \<lparr>s_width = 400, s_height = 80\<rparr>, Clicked 0]"
  have fires: "\<forall>g v. g_value g \<noteq> v \<longrightarrow> ?fires g v" by simp
  have "\<not> isl (row_run ?fires sample_accounts_style 440 ?evs ?row0)"
    by (simp add: AddAccountsRow_def clicked_def changedCallback_def container_resized_def Let_def)
  then obtain row where run: "row_run ?fires sample_accounts_style 440 ?evs ?row0 = Inr row"
    by (cases "row_run ?fires sample_accounts_style 440 ?evs ?row0") simp_all
  have consistent: "row_consistent row" and len: "length (accounts row) = 3"
    using row_run_consistent [OF fires run AddAccountsRow_consistent]
    by (simp_all add: AddAccountsRow_length)
  have "g_value (row_group row) = 0"
    using run
    by (auto simp: AddAccountsRow_def clicked_def changedCallback_def container_resized_def Let_def)
  then have first: "a_checked (accounts row ! 0)"
    using consistent len by (simp add: row_consistent_def)
  have t: "g_value (row_group (clicked ?fires 1 row)) = int 1"
    "\<forall>j < length [''a'', ''b'', ''c'']. a_checked (accounts (clicked ?fires 1 row) ! j) = (j = 1)"
    using clicked_account_checked [OF fires run, of 1 0] by simp_all
  have "\<not> a_checked (accounts (clicked ?fires 1 row) ! 0)"
    and "a_checked (accounts (clicked ?fires 1 row) ! 1)"
    and "\<not> a_checked (accounts (clicked ?fires 1 row) ! 2)"
    using t(2) by simp_all
  then show ?thesis
    using run first t(1) by simp
qed

subsection \<open>The layout of the accounts\<close>

text \<open>
  Claim C6. For a container width \<open>w\<close> (a widget's width: an \<^verbatim>\<open>int\<close> that is not
  negative), the size handler succeeds and gives every account of the row, account \<open>i\<close>,
  the width \<open>w div count\<close>, the left offset \<open>i * (w div count)\<close> and the container's
  height, the badge cached for the centre of that column, and the gradient computed for
  the photo in that column. The unsigned arithmetic of the handler makes the photo's
  offset in the column the floor of half the difference of the two widths, also when
  the column is narrower than the photo. The number of accounts and the photo's width
  are \<^verbatim>\<open>int\<close>s.
\<close>

theorem container_resized_layout:
  assumes "i < length (accounts row)" and "length (accounts row) \<le> 2147483647"
    and "0 \<le> s_width sz" and "s_width sz \<le> 2147483647"
    and "0 \<le> (imageRadius ast + selectWidth ast) * 2"
    and "(imageRadius ast + selectWidth ast) * 2 \<le> 2147483647"
  shows "\<exists>row'. container_resized ast boxWidth sz row = Inr row'
    \<and> length (accounts row') = length (accounts row)
    \<and> accounts row' ! i = (accounts row ! i)
        \<lparr>a_geometry :=
           \<lparr>r_x = int i * (s_width sz div int (length (accounts row))), r_y = 0,
            r_width = s_width sz div int (length (accounts row)), r_height = s_height sz\<rparr>,
         a_badge := Some (cacheBadge ast boxWidth (s_width sz)
           (int i * (s_width sz div int (length (accounts row)))
              + (s_width sz div int (length (accounts row))) div 2)),
         a_colorOverride := Some (GradientBrush
           (ComputeGradient boxWidth (s_width sz)
              (int i * (s_width sz div int (length (accounts row)))
                 + (s_width sz div int (length (accounts row))
                      - (imageRadius ast + selectWidth ast) * 2) div 2)
              ((imageRadius ast + selectWidth ast) * 2)))\<rparr>"
proof -
  let ?n = "length (accounts row)"
  let ?row' = "row\<lparr>accounts := layout_from ast boxWidth sz (s_width sz div int ?n) 0 (accounts row)\<rparr>"
  have "accounts row \<noteq> []" using assms(1) by auto
  then have "container_resized ast boxWidth sz row = Inr ?row'"
    using assms(3,4) by (rule container_resized_nonempty)
  moreover have "length (accounts ?row') = ?n"
    by (simp add: layout_from_length)
  moreover have "accounts ?row' ! i
      = layout_account ast boxWidth sz (s_width sz div int ?n) i (accounts row ! i)"
    using assms(1) by (simp add: layout_from_nth)
  ultimately show ?thesis
    using layout_account_small [OF assms(3,4,1,2,5,6), of boxWidth "accounts row ! i"]
    by simp
qed

theorem container_resized_layout_witness:
  "(\<exists>row'. container_resized sample_accounts_style 440 \<lparr>s_width = 400, s_height = 80\<rparr>
         (AddAccountsRow \<lparr>g_value = 0, g_hasValue = False\<rparr> [''a'', ''b'', ''c'']) = Inr row'
      \<and> a_geometry (accounts row' ! 1) = \<lparr>r_x = 133, r_y = 0, r_width = 133, r_height = 80\<rparr>
      \<and> map_option b_gradient (a_badge (accounts row' ! 1))
          = Some \<lparr>g_full = 440, g_from = 206, g_to = 232, g_span = 26\<rparr>
      \<and> a_colorOverride (accounts row' ! 1)
          = Some (GradientBrush \<lparr>g_full = 440, g_from = 192, g_to = 246, g_span = 54\<rparr>))
   \<and> (\<exists>row'. container_resized sample_accounts_style 440 \<lparr>s_width = 100, s_height = 80\<rparr>
         (AddAccountsRow \<lparr>g_value = 0, g_hasValue = False\<rparr> [''a'', ''b'', ''c'']) = Inr row'
      \<and> a_geometry (accounts row' ! 2) = \<lparr>r_x = 66, r_y = 0, r_width = 33, r_height = 80\<rparr>
      \<and> a_colorOverride (accounts row' ! 2)
          = Some (GradientBrush \<lparr>g_full = 440, g_from = 225, g_to = 279, g_span = 54\<rparr>))"
  using container_resized_layout [of 1
      "AddAccountsRow \<lparr>g_value = 0, g_hasValue = False\<rparr> [''a'', ''b'', ''c'']"
      "\<lparr>s_width = 400, s_height = 80\<rparr>" sample_accounts_style 440]
    container_resized_layout [of 2
      "AddAccountsRow \<lparr>g_value = 0, g_hasValue = False\<rparr> [''a'', ''b'', ''c'']"
      "\<lparr>s_width = 100, s_height = 80\<rparr>" sample_accounts_style 440]
  by (auto simp: AddAccountsRow_def sample_accounts_style_def cacheBadge_def ComputeGradient_def
      marginsRemoved_def tdiv_def Let_def)

subsection \<open>No accounts: division by zero\<close>

text \<open>
  Claim C10. \<^verbatim>\<open>AddAccountsRow\<close> makes one account per entry, and clicks and new sizes keep
  their number. The size handler divides by that number: it fails with a division by
  zero exactly when the list of entries is empty, at the first size already, and returns
  a row for every other list, whatever the size.
\<close>

theorem container_resized_division:
  "(container_resized ast boxWidth sz (AddAccountsRow grp entries) = Inl DivisionByZero)
      = (entries = [])
   \<and> isl (container_resized ast boxWidth sz (AddAccountsRow grp entries)) = (entries = [])
   \<and> length (accounts (AddAccountsRow grp entries)) = length entries
   \<and> (row_run fires ast boxWidth evs (AddAccountsRow grp entries) = Inr row \<longrightarrow>
        length (accounts row) = length entries
        \<and> isl (container_resized ast boxWidth sz row) = (entries = []))"
proof -
  have "length (accounts row) = length entries"
    if "row_run fires ast boxWidth evs (AddAccountsRow grp entries) = Inr row"
    using row_run_length [OF that] by (simp add: AddAccountsRow_length)
  then show ?thesis
    by (auto simp: container_resized_def Let_def AddAccountsRow_length)
qed

theorem container_resized_division_witness:
  "row_run (\<lambda>g v. True) sample_accounts_style 440 [Clicked 2]
      (AddAccountsRow \<lparr>g_value = 0, g_hasValue = False\<rparr> [''a'', ''b'', ''c''])
     = Inr (clicked (\<lambda>g v. True) 2
         (AddAccountsRow \<lparr>g_value = 0, g_hasValue = False\<rparr> [''a'', ''b'', ''c'']))
   \<and> \<not> isl (container_resized sample_accounts_style 440 \<lparr>s_width = 400, s_height = 80\<rparr>
         (clicked (\<lambda>g v. True) 2
           (AddAccountsRow \<lparr>g_value = 0, g_hasValue = False\<rparr> [''a'', ''b'', ''c''])))
   \<and> container_resized sample_accounts_style 440 \<lparr>s_width = 400, s_height = 80\<rparr>
         (AddAccountsRow \<lparr>g_value = 0, g_hasValue = False\<rparr> []) = Inl DivisionByZero"
  using container_resized_division [of sample_accounts_style 440 "\<lparr>s_width = 400, s_height = 80\<rparr>"
      "\<lparr>g_value = 0, g_hasValue = False\<rparr>" "[''a'', ''b'', ''c'']" "\<lambda>g v. True" "[Clicked 2]"
      "clicked (\<lambda>g v. True) 2
         (AddAccountsRow \<lparr>g_value = 0, g_hasValue = False\<rparr> [''a'', ''b'', ''c''])"]
    container_resized_division [of sample_accounts_style 440 "\<lparr>s_width = 400, s_height = 80\<rparr>"
      "\<lparr>g_value = 0, g_hasValue = False\<rparr>" "[]" "\<lambda>g v. True" "[]"
      "AddAccountsRow \<lparr>g_value = 0, g_hasValue = False\<rparr> []"]
  by simp

subsection \<open>Helper lemmas: the lines of the list box\<close>

lemma recache_override: "overrideBrush (recache st pw s l) = overrideBrush l"
  by (simp add: recache_def Let_def)

lemma line_resized_override: "overrideBrush (line_resized st pw s l) = overrideBrush l"
  by (simp add: line_resized_def Let_def recache_override)

lemma Line_numbers_override: "overrideBrush (Line_numbers st pw w mx f mn) = None"
  by (simp add: Line_numbers_def Line_def line_resized_override)

lemma build_lines_length:
  "length (build_lines st pw w number entries lines) = length lines + length entries"
  by (induction entries arbitrary: lines) simp_all

lemma build_lines_override:
  "\<forall>l \<in> set lines. overrideBrush l = None \<Longrightarrow>
     \<forall>l \<in> set (build_lines st pw w number entries lines). overrideBrush l = None"
proof (induction entries arbitrary: lines)
  case Nil
  then show ?case by simp
next
  case (Cons e entries)
  have "\<forall>l \<in> set (lines @ [Line_numbers st pw w (rightNumber e) (entry_text number e)
      (leftNumber e)]). overrideBrush l = None"
    using Cons.prems by (simp add: Line_numbers_override)
  then have "\<forall>l \<in> set (build_lines st pw w number entries
      (lines @ [Line_numbers st pw w (rightNumber e) (entry_text number e) (leftNumber e)])).
      overrideBrush l = None"
    by (rule Cons.IH)
  then show ?case by simp
qed

lemma color_from_length: "length (color_from line_y f t k ls) = length ls"
  by (induction ls arbitrary: k) simp_all

lemma color_line_override:
  "overrideBrush (color_line line_y f t k l)
     = Some (HeightBrush (line_y k - f) (line_y k - f + s_height (l_size l)) (t - f)
         (s_height (l_size l)))"
  by (simp add: color_line_def setColorOverride_def Let_def)

lemma color_from_override:
  "l \<in> set (color_from line_y f t k ls) \<Longrightarrow> overrideBrush l \<noteq> None"
  by (induction ls arbitrary: k) (auto simp: color_line_override)

subsection \<open>The list box needs three entries\<close>

text \<open>
  Claim C9. \<^verbatim>\<open>ShowListBox\<close> builds one line per entry. With two entries or fewer the
  assertion \<^verbatim>\<open>lines.size() > 2\<close> fails, and the lines built until then have no colour
  override: none was coloured. With more than two entries the call returns, with every
  line coloured.
\<close>

theorem ShowListBox_needs_three:
  "length (build_lines st pw w number entries []) = length entries
   \<and> (length entries \<le> 2 \<longrightarrow>
        ShowListBox st pw w number line_y entries = Inl AssertionFailed
        \<and> (\<forall>l \<in> set (build_lines st pw w number entries []). overrideBrush l = None))
   \<and> (2 < length entries \<longrightarrow>
        (\<exists>box. ShowListBox st pw w number line_y entries = Inr box
           \<and> length (box_lines box) = length entries
           \<and> (\<forall>l \<in> set (box_lines box). overrideBrush l \<noteq> None)))"
proof -
  have len: "length (build_lines st pw w number entries []) = length entries"
    by (simp add: build_lines_length)
  have none: "\<forall>l \<in> set (build_lines st pw w number entries []). overrideBrush l = None"
    by (rule build_lines_override) simp
  have some: "\<forall>l \<in> set (color_from line_y f t 0 (build_lines st pw w number entries [])).
      overrideBrush l \<noteq> None" for f t
    using color_from_override by blast
  show ?thesis
    using none some by (simp add: len ShowListBox_def Let_def color_from_length)
qed

theorem ShowListBox_needs_three_witness:
  "ShowListBox sample_style 400 360 (\<lambda>n. replicate (nat n) CHR ''|'') (\<lambda>i. 40 + 100 * int i)
      [\<lparr>leftNumber = 1, rightNumber = 2, customRightText = None\<rparr>,
       \<lparr>leftNumber = 3, rightNumber = 4, customRightText = Some ''many''\<rparr>] = Inl AssertionFailed
   \<and> map overrideBrush (build_lines sample_style 400 360 (\<lambda>n. replicate (nat n) CHR ''|'')
      [\<lparr>leftNumber = 1, rightNumber = 2, customRightText = None\<rparr>,
       \<lparr>leftNumber = 3, rightNumber = 4, customRightText = Some ''many''\<rparr>] []) = [None, None]
   \<and> map_sum id (map overrideBrush \<circ> box_lines)
        (ShowListBox sample_style 400 360 (\<lambda>n. replicate (nat n) CHR ''|'')
           (\<lambda>i. 40 + 100 * int i)
           [\<lparr>leftNumber = 1, rightNumber = 2, customRightText = None\<rparr>,
            \<lparr>leftNumber = 3, rightNumber = 4, customRightText = Some ''many''\<rparr>,
            \<lparr>leftNumber = 0, rightNumber = 6, customRightText = None\<rparr>])
       = Inr [Some (HeightBrush 0 32 232 32), Some (HeightBrush 100 132 232 32),
              Some (HeightBrush 200 232 232 32)]
   \<and> (\<exists>box. ShowListBox sample_style 400 360 (\<lambda>n. replicate (nat n) CHR ''|'')
           (\<lambda>i. 40 + 100 * int i)
           [\<lparr>leftNumber = 1, rightNumber = 2, customRightText = None\<rparr>,
            \<lparr>leftNumber = 3, rightNumber = 4, customRightText = Some ''many''\<rparr>,
            \<lparr>leftNumber = 0, rightNumber = 6, customRightText = None\<rparr>] = Inr box
         \<and> length (box_lines box) = 3)"
proof -
  let ?number = "\<lambda>n. replicate (nat n) CHR ''|''"
  let ?y = "\<lambda>i. 40 + 100 * int i"
  let ?two = "[\<lparr>leftNumber = 1, rightNumber = 2, customRightText = None\<rparr>,
       \<lparr>leftNumber = 3, rightNumber = 4, customRightText = Some ''many''\<rparr>]"
  let ?three = "[\<lparr>leftNumber = 1, rightNumber = 2, customRightText = None\<rparr>,
            \<lparr>leftNumber = 3, rightNumber = 4, customRightText = Some ''many''\<rparr>,
            \<lparr>leftNumber = 0, rightNumber = 6, customRightText = None\<rparr>]"
  have two: "length ?two \<le> 2" by simp
  have "ShowListBox sample_style 400 360 ?number ?y ?two = Inl AssertionFailed"
    and "\<forall>l \<in> set (build_lines sample_style 400 360 ?number ?two []). overrideBrush l = None"
    using ShowListBox_needs_three [of sample_style 400 360 ?number ?two ?y] two by blast+
  moreover have "map_sum id (map overrideBrush \<circ> box_lines)
        (ShowListBox sample_style 400 360 ?number ?y ?three)
       = Inr [Some (HeightBrush 0 32 232 32), Some (HeightBrush 100 132 232 32),
              Some (HeightBrush 200 232 232 32)]"
    by (simp add: ShowListBox_def Let_def Line_numbers_def Line_def line_resized_def recache_def
      sample_style_def isEmpty_def color_line_def setColorOverride_def)
  moreover have "\<exists>box. ShowListBox sample_style 400 360 ?number ?y ?three = Inr box
      \<and> length (box_lines box) = 3"
    using ShowListBox_needs_three [of sample_style 400 360 ?number ?three ?y] by auto
  ultimately show ?thesis by simp
qed

end
